theory Spec2Isabelle
  imports Complex_Main "HOL-Library.Log_Nat" "HOL-Library.Char_ord" "HOL-Library.List_Lexorder"
    "HOL-Library.AList"
begin

section \<open>Python values\<close>

text \<open>
  The bridge reads JSON documents from the realtime database and a YAML sensor
  configuration. Both arrive in Python as untyped values, so records, field values and
  configuration entries are all modelled by one type of values. Strings are lists of
  8-bit characters, read as code points below 256; dictionaries keep their keys as
  strings, as JSON objects do, in the order the store returned them.

  A finite float is identified with the rational number it denotes. Wherever Python
  rounds to binary64 (an integer converted to float, a decimal text converted to float,
  a float division) the model rounds with \<open>b64\<close> below; signed zeros are not
  distinguished.
\<close>

datatype pyerr =
  ValueError | TypeError | OverflowError | AttributeError | IndexError | OSError

datatype pyfloat = Fin rat | PosInf | NegInf | NaN

datatype pyval =
    PNone
  | PBool bool
  | PInt int
  | PFloat pyfloat
  | PStr string
  | PList "pyval list"
  | PDict "(string \<times> pyval) list"

text \<open>Truth value testing, as \<^verbatim>\<open>if x:\<close> and \<^verbatim>\<open>x or y\<close> do it.\<close>

fun truthy :: "pyval \<Rightarrow> bool" where
  "truthy PNone = False"
| "truthy (PBool b) = b"
| "truthy (PInt n) = (n \<noteq> 0)"
| "truthy (PFloat f) = (f \<noteq> Fin 0)"
| "truthy (PStr s) = (s \<noteq> [])"
| "truthy (PList xs) = (xs \<noteq> [])"
| "truthy (PDict kvs) = (kvs \<noteq> [])"

text \<open>\<^verbatim>\<open>isinstance(x, (int, float))\<close>; \<^verbatim>\<open>bool\<close> is a subclass of \<^verbatim>\<open>int\<close>.\<close>

fun is_int_or_float :: "pyval \<Rightarrow> bool" where
  "is_int_or_float (PBool b) = True"
| "is_int_or_float (PInt n) = True"
| "is_int_or_float (PFloat f) = True"
| "is_int_or_float v = False"

text \<open>
  \<^verbatim>\<open>d.get(k, default)\<close>. A value that is not a dictionary has no \<^verbatim>\<open>get\<close>
  (AttributeError); a list or a dictionary used as key is unhashable (TypeError); a key
  that is not a string is never found, since every key of the dictionary is a string.
\<close>

fun dict_get :: "pyval \<Rightarrow> pyval \<Rightarrow> pyval \<Rightarrow> pyerr + pyval" where
  "dict_get (PDict kvs) (PStr k) d = Inr (case map_of kvs k of Some v \<Rightarrow> v | None \<Rightarrow> d)"
| "dict_get (PDict kvs) (PList xs) d = Inl TypeError"
| "dict_get (PDict kvs) (PDict ys) d = Inl TypeError"
| "dict_get (PDict kvs) k d = Inr d"
| "dict_get v k d = Inl AttributeError"

subsection \<open>Floats\<close>

definition pow2 :: "int \<Rightarrow> rat" where
  "pow2 d = (if 0 \<le> d then 2 ^ nat d else 1 / 2 ^ nat (- d))"

definition round_half_even :: "rat \<Rightarrow> int" where
  "round_half_even x =
     (let f = \<lfloor>x\<rfloor>; d = x - of_int f
      in if d < 1 / 2 then f else if 1 / 2 < d then f + 1 else if even f then f else f + 1)"

text \<open>\<open>ilog2 a\<close> is the binary exponent of a positive rational: \<open>2 ^ e \<le> a < 2 ^ (e + 1)\<close>.\<close>

definition ilog2 :: "rat \<Rightarrow> int" where
  "ilog2 a = (case quotient_of a of (p, q) \<Rightarrow>
     (let d = bitlen p - bitlen q in if pow2 d \<le> a then d else d - 1))"

text \<open>
  Rounding of an exact value to the nearest binary64 (53 significant bits, ties to even,
  gradual underflow below \<open>2 ^ (- 1022)\<close>, infinity from \<open>2 ^ 1024\<close> on).
\<close>

definition b64 :: "rat \<Rightarrow> pyfloat" where
  "b64 x =
     (if x = 0 then Fin 0
      else let a = \<bar>x\<bar>;
               e = max (ilog2 a) (- 1022);
               u = pow2 (e - 52);
               y = of_int (round_half_even (a / u)) * u
           in if 2 ^ 1024 \<le> y then (if 0 < x then PosInf else NegInf)
              else Fin (if 0 < x then y else - y))"

text \<open>\<^verbatim>\<open>float(n)\<close> of an integer raises OverflowError where the rounded value is infinite.\<close>

definition float_of_int :: "int \<Rightarrow> pyerr + pyfloat" where
  "float_of_int n = (case b64 (of_int n) of Fin q \<Rightarrow> Inr (Fin q) | _ \<Rightarrow> Inl OverflowError)"

text \<open>\<^verbatim>\<open>x / 1000.0\<close> and \<^verbatim>\<open>x > 1e11\<close> on floats.\<close>

fun fdiv1000 :: "pyfloat \<Rightarrow> pyfloat" where
  "fdiv1000 (Fin q) = b64 (q / 1000)"
| "fdiv1000 f = f"

fun fgt_1e11 :: "pyfloat \<Rightarrow> bool" where
  "fgt_1e11 (Fin q) = (100000000000 < q)"
| "fgt_1e11 PosInf = True"
| "fgt_1e11 f = False"

text \<open>\<^verbatim>\<open>int(x)\<close> of a float truncates towards zero; it raises on NaN and on infinities.\<close>

definition py_trunc :: "rat \<Rightarrow> int" where
  "py_trunc q = (if 0 \<le> q then \<lfloor>q\<rfloor> else \<lceil>q\<rceil>)"

fun int_of_float :: "pyfloat \<Rightarrow> pyerr + int" where
  "int_of_float (Fin q) = Inr (py_trunc q)"
| "int_of_float NaN = Inl ValueError"
| "int_of_float f = Inl OverflowError"

subsection \<open>Strings\<close>

definition is_digit :: "char \<Rightarrow> bool" where
  "is_digit c = (c \<in> set ''0123456789'')"

definition digit_val :: "char \<Rightarrow> int" where
  "digit_val c = int (of_char c) - 48"

text \<open>
  \<^verbatim>\<open>int(s)\<close> of a non-empty string of decimal digits. (The interpreter's
  configurable limit on the length of such a text, 4300 digits where it exists, is
  not part of the model.)
\<close>

definition int_of_digits :: "string \<Rightarrow> int" where
  "int_of_digits ds = foldl (\<lambda>n c. 10 * n + digit_val c) 0 ds"

text \<open>
  \<^verbatim>\<open>re.search(r'\d+', s)\<close>: the leftmost match, which is greedy, so the first maximal
  run of digits. Among the code points below 256 the class \<^verbatim>\<open>\d\<close> holds exactly the
  ten ASCII digits.
\<close>

definition re_search_digits :: "string \<Rightarrow> string option" where
  "re_search_digits s =
     (let r = takeWhile is_digit (dropWhile (\<lambda>c. \<not> is_digit c) s)
      in if r = [] then None else Some r)"

text \<open>\<^verbatim>\<open>s.split(c)\<close> with a one-character separator.\<close>

fun split_on :: "char \<Rightarrow> string \<Rightarrow> string list" where
  "split_on c [] = [[]]"
| "split_on c (x # xs) =
     (if x = c then [] # split_on c xs
      else (case split_on c xs of [] \<Rightarrow> [[x]] | w # ws \<Rightarrow> (x # w) # ws))"

text \<open>
  \<^verbatim>\<open>float(s)\<close> of a string. Leading and trailing whitespace is removed; what is left is
  an optional sign followed by \<^verbatim>\<open>inf\<close>, \<^verbatim>\<open>infinity\<close> or \<^verbatim>\<open>nan\<close> in any
  case, or by a decimal number with an optional fraction and an optional exponent, where
  a single underscore may stand between two digits. Anything else is a ValueError. The
  value is rounded to binary64.
\<close>

definition is_space :: "char \<Rightarrow> bool" where
  "is_space c = (of_char c \<in> {9, 10, 11, 12, 13, 32, 133, 160 :: nat})"

definition strip :: "string \<Rightarrow> string" where
  "strip s = rev (dropWhile is_space (rev (dropWhile is_space s)))"

definition lower_char :: "char \<Rightarrow> char" where
  "lower_char c =
     (let n = (of_char c :: nat) in if 65 \<le> n \<and> n \<le> 90 then char_of (n + 32) else c)"

fun underscores_ok :: "bool \<Rightarrow> string \<Rightarrow> bool" where
  "underscores_ok prev_digit [] = True"
| "underscores_ok prev_digit (c # cs) =
     (if c = CHR ''_''
      then prev_digit \<and> (case cs of [] \<Rightarrow> False | d # _ \<Rightarrow> is_digit d) \<and> underscores_ok False cs
      else underscores_ok (is_digit c) cs)"

definition decimal_value :: "string \<Rightarrow> rat option" where
  "decimal_value s =
     (let ip = takeWhile is_digit s;
          r1 = dropWhile is_digit s;
          dot = (r1 \<noteq> [] \<and> hd r1 = CHR ''.'');
          r2 = (if dot then tl r1 else r1);
          fp = takeWhile is_digit r2;
          r3 = dropWhile is_digit r2;
          mant = of_int (int_of_digits (ip @ fp)) / 10 ^ length fp
      in if ip = [] \<and> fp = [] then None
         else if r3 = [] then Some mant
         else if hd r3 = CHR ''e'' \<or> hd r3 = CHR ''E''
         then (let r4 = tl r3;
                   neg = (r4 \<noteq> [] \<and> hd r4 = CHR ''-'');
                   r5 = (if r4 \<noteq> [] \<and> (hd r4 = CHR ''-'' \<or> hd r4 = CHR ''+'') then tl r4 else r4)
               in if r5 \<noteq> [] \<and> list_all is_digit r5
                  then Some (if neg then mant / 10 ^ nat (int_of_digits r5)
                             else mant * 10 ^ nat (int_of_digits r5))
                  else None)
         else None)"

definition float_of_str :: "string \<Rightarrow> pyerr + pyfloat" where
  "float_of_str s0 =
     (let s = strip s0;
          neg = (s \<noteq> [] \<and> hd s = CHR ''-'');
          body = (if s \<noteq> [] \<and> (hd s = CHR ''-'' \<or> hd s = CHR ''+'') then tl s else s);
          low = map lower_char body
      in if low = ''inf'' \<or> low = ''infinity'' then Inr (if neg then NegInf else PosInf)
         else if low = ''nan'' then Inr NaN
         else if \<not> underscores_ok False body then Inl ValueError
         else (case decimal_value (filter (\<lambda>c. c \<noteq> CHR ''_'') body) of
                 None \<Rightarrow> Inl ValueError
               | Some q \<Rightarrow> Inr (b64 (if neg then - q else q))))"

text \<open>\<^verbatim>\<open>float(x)\<close> and \<^verbatim>\<open>int(x)\<close> for \<open>x\<close> an int, a bool or a float.\<close>

fun py_float :: "pyval \<Rightarrow> pyerr + pyfloat" where
  "py_float PNone = Inl TypeError"
| "py_float (PBool b) = Inr (Fin (if b then 1 else 0))"
| "py_float (PInt n) = float_of_int n"
| "py_float (PFloat f) = Inr f"
| "py_float (PStr s) = float_of_str s"
| "py_float (PList xs) = Inl TypeError"
| "py_float (PDict kvs) = Inl TypeError"

fun py_int_of_number :: "pyval \<Rightarrow> pyerr + int" where
  "py_int_of_number (PBool b) = Inr (if b then 1 else 0)"
| "py_int_of_number (PInt n) = Inr n"
| "py_int_of_number (PFloat f) = int_of_float f"
| "py_int_of_number v = Inl TypeError"

section \<open>The runtime the normalizer reads\<close>

text \<open>
  What the normalizer takes from outside its arguments: the two clock readings
  (\<^verbatim>\<open>time.time()\<close> in \<^verbatim>\<open>clean_sensor_data\<close>, \<^verbatim>\<open>datetime.now(utc)\<close> in
  \<^verbatim>\<open>_parse_timestamp\<close>), and three library behaviours that are parameters here:
  \<^verbatim>\<open>str()\<close> of a list or dictionary, the five \<^verbatim>\<open>strptime\<close> patterns tried on
  \<^verbatim>\<open>str(raw_ts).strip()\<close> (None when none of them parses), and the range of whole
  seconds the platform's \<^verbatim>\<open>time_t\<close> and \<^verbatim>\<open>gmtime\<close> accept.
\<close>

datatype datetime = Micros int

record runtime =
  time_time :: rat
  utc_now :: datetime
  str_of_container :: "pyval \<Rightarrow> string"
  iso_strptime :: "pyval \<Rightarrow> datetime option"
  platform_time_ok :: "int \<Rightarrow> bool"

text \<open>\<^verbatim>\<open>str(x)\<close>, used on values that are neither None nor numbers.\<close>

definition py_str :: "runtime \<Rightarrow> pyval \<Rightarrow> string" where
  "py_str rt v = (case v of PStr s \<Rightarrow> s | _ \<Rightarrow> str_of_container rt v)"

text \<open>
  \<^verbatim>\<open>datetime.fromtimestamp(ts, timezone.utc)\<close>. The interpreter splits the float into
  its integral part and its fractional part (both exact), multiplies the fractional part
  by \<open>10 ^ 6\<close> in binary64, rounds that product half to even, and carries into the
  seconds when the result leaves \<open>0..999999\<close>. The product is below \<open>10 ^ 6\<close> in
  magnitude, so its rounding to binary64 is always finite.
\<close>

definition split_timestamp :: "rat \<Rightarrow> int \<times> int" where
  "split_timestamp q =
     (let intpart = py_trunc q;
          floatpart = (case b64 ((q - of_int intpart) * 1000000) of Fin x \<Rightarrow> x | _ \<Rightarrow> 0);
          r = round_half_even floatpart
      in if 1000000 \<le> r then (intpart + 1, r - 1000000)
         else if r < 0 then (intpart - 1, r + 1000000)
         else (intpart, r))"

text \<open>
  NaN is a ValueError, an infinity or a number of seconds the platform cannot convert is
  an OverflowError or OSError, and a year outside 1..9999 is a ValueError.
\<close>

definition fromtimestamp :: "runtime \<Rightarrow> pyfloat \<Rightarrow> pyerr + datetime" where
  "fromtimestamp rt f =
     (case f of
        NaN \<Rightarrow> Inl ValueError
      | PosInf \<Rightarrow> Inl OverflowError
      | NegInf \<Rightarrow> Inl OverflowError
      | Fin q \<Rightarrow>
          (case split_timestamp q of
             (secs, us) \<Rightarrow>
               if \<not> platform_time_ok rt secs then Inl OSError
               else if secs < - 62135596800 \<or> 253402300800 \<le> secs then Inl ValueError
               else Inr (Micros (secs * 1000000 + us))))"

section \<open>The record normalizer (main.py)\<close>

definition DISTANCE_FALLBACK_FIELDS :: "string list" where
  "DISTANCE_FALLBACK_FIELDS =
     [''dist_cm'', ''distance_cm'', ''ultrasound'', ''ultrasound_cm'', ''level'',
      ''level_cm'', ''distance'', ''water_level'', ''distance_from_sensor'']"

definition BATTERY_FALLBACK_FIELDS :: "string list" where
  "BATTERY_FALLBACK_FIELDS = [''bat_volt'', ''battery_voltage'', ''battery'', ''voltage'']"

definition SOLAR_FALLBACK_FIELDS :: "string list" where
  "SOLAR_FALLBACK_FIELDS = [''solar_volt'', ''solar_voltage'', ''solar'']"

text \<open>
  \<^verbatim>\<open>_get_field(data, field_name, fallbacks)\<close>: with a configured name the value under
  that name, whatever it is; otherwise the first value along the chain that is not None.
\<close>

fun get_field_chain :: "pyval \<Rightarrow> string list \<Rightarrow> pyerr + pyval" where
  "get_field_chain data [] = Inr PNone"
| "get_field_chain data (fb # fbs) =
     (case dict_get data (PStr fb) PNone of
        Inl e \<Rightarrow> Inl e
      | Inr val \<Rightarrow> if val \<noteq> PNone then Inr val else get_field_chain data fbs)"

definition get_field :: "pyval \<Rightarrow> pyval \<Rightarrow> string list \<Rightarrow> pyerr + pyval" where
  "get_field data field_name fallbacks =
     (if truthy field_name then dict_get data field_name PNone
      else get_field_chain data fallbacks)"

text \<open>
  \<^verbatim>\<open>_parse_distance(raw_dist, encoding)\<close>. The \<^verbatim>\<open>numeric\<close> branch catches
  ValueError and TypeError only; the other branches catch nothing.
\<close>

definition parse_distance :: "runtime \<Rightarrow> pyval \<Rightarrow> pyval \<Rightarrow> pyerr + int" where
  "parse_distance rt raw_dist encoding =
     (if raw_dist = PNone then Inr 0
      else if encoding = PStr ''numeric''
      then (case (case py_float raw_dist of Inl e \<Rightarrow> Inl e | Inr f \<Rightarrow> int_of_float f) of
              Inl e \<Rightarrow> if e = ValueError \<or> e = TypeError then Inr 0 else Inl e
            | Inr n \<Rightarrow> Inr n)
      else if encoding = PStr ''string''
      then (if is_int_or_float raw_dist then py_int_of_number raw_dist
            else (case re_search_digits (py_str rt raw_dist) of
                    Some m \<Rightarrow> Inr (int_of_digits m)
                  | None \<Rightarrow> Inr 0))
      else if is_int_or_float raw_dist then py_int_of_number raw_dist
      else (case raw_dist of
              PStr s \<Rightarrow> (case re_search_digits s of
                           Some m \<Rightarrow> Inr (int_of_digits m)
                         | None \<Rightarrow> Inr 0)
            | _ \<Rightarrow> Inr 0))"

text \<open>
  \<^verbatim>\<open>_parse_timestamp(raw_ts, fmt)\<close>. The conversion to float catches ValueError and
  TypeError, the final \<^verbatim>\<open>fromtimestamp\<close> catches OSError and OverflowError; every
  caught error yields the clock reading.
\<close>

definition scale_epoch :: "pyval \<Rightarrow> pyfloat \<Rightarrow> pyfloat" where
  "scale_epoch fmt ts =
     (if fmt = PStr ''epoch_ms'' then fdiv1000 ts
      else if fmt = PStr ''epoch_auto'' then (if fgt_1e11 ts then fdiv1000 ts else ts)
      else ts)"

definition fromtimestamp_or_now :: "runtime \<Rightarrow> pyfloat \<Rightarrow> pyerr + datetime" where
  "fromtimestamp_or_now rt ts =
     (case fromtimestamp rt ts of
        Inl e \<Rightarrow> if e = OSError \<or> e = OverflowError then Inr (utc_now rt) else Inl e
      | Inr dt \<Rightarrow> Inr dt)"

definition parse_timestamp :: "runtime \<Rightarrow> pyval \<Rightarrow> pyval \<Rightarrow> pyerr + datetime" where
  "parse_timestamp rt raw_ts fmt =
     (if raw_ts = PNone then Inr (utc_now rt)
      else if fmt = PStr ''iso''
      then (case iso_strptime rt raw_ts of Some dt \<Rightarrow> Inr dt | None \<Rightarrow> Inr (utc_now rt))
      else (case py_float raw_ts of
              Inl e \<Rightarrow> if e = ValueError \<or> e = TypeError then Inr (utc_now rt) else Inl e
            | Inr ts \<Rightarrow> fromtimestamp_or_now rt (scale_epoch fmt ts)))"

text \<open>The point handed to the sink: one measurement, one tag, four fields and a time.\<close>

record point =
  measurement :: string
  tag_sensor_id :: string
  field_dist_cm :: int
  field_bat_volt :: pyfloat
  field_solar_volt :: pyfloat
  field_fb_key :: string
  point_time :: datetime

definition sensor_id_of_key :: "string \<Rightarrow> pyerr + string" where
  "sensor_id_of_key key =
     (if CHR ''/'' \<in> set key
      then (case split_on CHR ''/'' key of
              _ # s # _ \<Rightarrow> Inr s
            | _ \<Rightarrow> Inl IndexError)
      else Inr ''unknown_sensor'')"

definition float_or_zero :: "pyval \<Rightarrow> pyerr + pyfloat" where
  "float_or_zero raw = (if raw \<noteq> PNone then py_float raw else Inr (Fin 0))"

definition bindE :: "pyerr + 'a \<Rightarrow> ('a \<Rightarrow> pyerr + 'b) \<Rightarrow> pyerr + 'b" where
  "bindE m f = (case m of Inl e \<Rightarrow> Inl e | Inr x \<Rightarrow> f x)"

text \<open>
  Step 2 of \<^verbatim>\<open>clean_sensor_data\<close>, the field mappings read from the configuration:
  \<^verbatim>\<open>(sensor_cfg or {}).get("fields", {})\<close>, the four names looked up in it, and the
  two formats.
\<close>

record mappings =
  dist_field :: pyval
  bat_field :: pyval
  sol_field :: pyval
  ts_field :: pyval
  dist_encoding :: pyval
  ts_format :: pyval

definition read_field_mappings :: "pyval \<Rightarrow> pyerr + mappings" where
  "read_field_mappings sensor_cfg =
     (let cfg = (if truthy sensor_cfg then sensor_cfg else PDict []) in
      bindE (dict_get cfg (PStr ''fields'') (PDict [])) (\<lambda>fields_cfg.
      bindE (dict_get fields_cfg (PStr ''distance'') PNone) (\<lambda>df.
      bindE (dict_get fields_cfg (PStr ''battery'') PNone) (\<lambda>bf.
      bindE (dict_get fields_cfg (PStr ''solar'') PNone) (\<lambda>sf.
      bindE (dict_get fields_cfg (PStr ''timestamp'') (PStr ''timestamp'')) (\<lambda>tf.
      bindE (dict_get cfg (PStr ''distance_encoding'') (PStr ''auto'')) (\<lambda>de.
      bindE (dict_get cfg (PStr ''timestamp_format'') (PStr ''epoch_auto'')) (\<lambda>tfmt.
      Inr \<lparr> dist_field = df, bat_field = bf, sol_field = sf, ts_field = tf,
            dist_encoding = de, ts_format = tfmt \<rparr>))))))))"

text \<open>
  The body of \<^verbatim>\<open>clean_sensor_data\<close> inside its \<^verbatim>\<open>try\<close>, statement by statement;
  \<open>bindE\<close> passes the first exception on. The default of the timestamp lookup,
  \<^verbatim>\<open>time.time()\<close>, is the first clock reading.
\<close>

definition clean_body :: "runtime \<Rightarrow> string \<Rightarrow> pyval \<Rightarrow> pyval \<Rightarrow> pyerr + point" where
  "clean_body rt key data sensor_cfg =
     bindE (sensor_id_of_key key) (\<lambda>sensor_id.
     bindE (read_field_mappings sensor_cfg) (\<lambda>m.
     bindE (get_field data (dist_field m) DISTANCE_FALLBACK_FIELDS) (\<lambda>raw_dist.
     bindE (get_field data (bat_field m) BATTERY_FALLBACK_FIELDS) (\<lambda>raw_bat.
     bindE (get_field data (sol_field m) SOLAR_FALLBACK_FIELDS) (\<lambda>raw_sol.
     bindE (dict_get data (ts_field m) (PFloat (Fin (time_time rt)))) (\<lambda>raw_ts.
     bindE (parse_distance rt raw_dist (dist_encoding m)) (\<lambda>dist_cm.
     bindE (float_or_zero raw_bat) (\<lambda>bat.
     bindE (float_or_zero raw_sol) (\<lambda>sol.
     bindE (parse_timestamp rt raw_ts (ts_format m)) (\<lambda>dt_obj.
     Inr \<lparr> measurement = ''sensor_reading'',
           tag_sensor_id = sensor_id,
           field_dist_cm = dist_cm,
           field_bat_volt = bat,
           field_solar_volt = sol,
           field_fb_key = last (split_on CHR ''/'' key),
           point_time = dt_obj \<rparr>))))))))))"

text \<open>\<^verbatim>\<open>clean_sensor_data\<close>: any exception of the body is logged and None is returned.\<close>

definition clean_sensor_data :: "runtime \<Rightarrow> string \<Rightarrow> pyval \<Rightarrow> pyval \<Rightarrow> point option" where
  "clean_sensor_data rt key data sensor_cfg =
     (case clean_body rt key data sensor_cfg of Inl e \<Rightarrow> None | Inr p \<Rightarrow> Some p)"

section \<open>Cursor store, recovery and the polling loop (main.py)\<close>

text \<open>
  A cursor is a push key or None. The cursor map is the dictionary \<^verbatim>\<open>cursors\<close> of
  \<^verbatim>\<open>main\<close>, kept as the list of its items in insertion order: \<open>map_of\<close> looks a
  sensor up and \<open>AList.update\<close> assigns to it.

  Everything \<^verbatim>\<open>main\<close> reaches outside the process is a field of \<open>world\<close>: the
  contents of the state file as \<^verbatim>\<open>load_state_from_file\<close> returns them (empty when the
  file is missing or unreadable), the sink's answer to the recovery query (the tables
  of record values, or an exception), the source's answers to the two kinds of
  request, the outcome of a batched write (None when \<^verbatim>\<open>write\<close> returns, the
  exception otherwise), and the runtime in effect while the record under a given key is
  normalized. The calls a step makes are returned as a trace, in order; a request for a
  page is recorded with the source's answer.
\<close>

type_synonym cursors = "(string \<times> string option) list"

datatype query = StartAt string | LimitToLast

datatype call =
    SinkQuery string
  | SourceLatest string
  | SourceGet string query "pyerr + pyval"
  | SinkWrite string "point list"
  | SaveState cursors

record world =
  sensor_configs :: "(string \<times> pyval) list"
  saved_state :: cursors
  influx_query :: "string \<Rightarrow> pyerr + string option list list"
  firebase_latest :: "string \<Rightarrow> pyerr + pyval"
  firebase_page :: "string \<Rightarrow> query \<Rightarrow> pyerr + pyval"
  influx_write :: "string \<Rightarrow> point list \<Rightarrow> pyerr option"
  runtime_at :: "string \<Rightarrow> runtime"

text \<open>
  \<^verbatim>\<open>fetch_last_key_from_influx\<close>: the value of the first record of the first table
  that has one; None when there is none or the query raises.
\<close>

definition fetch_last_key_from_influx :: "world \<Rightarrow> string \<Rightarrow> string option" where
  "fetch_last_key_from_influx w sensor_id =
     (case influx_query w sensor_id of
        Inl e \<Rightarrow> None
      | Inr tables \<Rightarrow> (case concat tables of [] \<Rightarrow> None | v # vs \<Rightarrow> v))"

text \<open>Priority 3 of the initialisation: the key of the newest source record, if any.\<close>

definition fresh_start :: "world \<Rightarrow> string \<Rightarrow> string option" where
  "fresh_start w sensor =
     (case firebase_latest w sensor of
        Inl e \<Rightarrow> None
      | Inr snapshot \<Rightarrow>
          (case snapshot of
             PDict kvs \<Rightarrow> if kvs \<noteq> [] then Some (fst (last kvs)) else None
           | _ \<Rightarrow> None))"

text \<open>The body of the loop \<^verbatim>\<open>for sensor in SENSORS\<close> that initialises the cursors.\<close>

definition init_cursor :: "world \<Rightarrow> string \<Rightarrow> string option \<times> call list" where
  "init_cursor w sensor =
     (case map_of (saved_state w) sensor of
        Some c \<Rightarrow> (c, [])
      | None \<Rightarrow>
          (let influx_key = fetch_last_key_from_influx w sensor
           in if influx_key \<noteq> None \<and> influx_key \<noteq> Some []
              then (influx_key, [SinkQuery sensor])
              else (fresh_start w sensor, [SinkQuery sensor, SourceLatest sensor])))"

fun init_cursors :: "world \<Rightarrow> string list \<Rightarrow> cursors \<times> call list \<Rightarrow> cursors \<times> call list" where
  "init_cursors w [] acc = acc"
| "init_cursors w (sensor # sensors) (cs, calls) =
     (case init_cursor w sensor of
        (c, made) \<Rightarrow> init_cursors w sensors (AList.update sensor c cs, calls @ made))"

definition SENSORS :: "world \<Rightarrow> string list" where
  "SENSORS w = map fst (sensor_configs w)"

text \<open>Initialisation followed by the initial \<^verbatim>\<open>save_state(cursors)\<close>.\<close>

definition startup :: "world \<Rightarrow> cursors \<times> call list" where
  "startup w =
     (case init_cursors w (SENSORS w) ([], []) of
        (cs, calls) \<Rightarrow> (cs, calls @ [SaveState cs]))"

text \<open>
  The loop over \<^verbatim>\<open>sorted(snapshot.keys())\<close>: the key that equals the cursor is skipped,
  a record that is a dictionary is normalized and its point, if any, appended, and
  \<^verbatim>\<open>new_last_key\<close> is set to every key that is not skipped. The keys of a dictionary are
  distinct, so the loop runs over the items in the order of their keys.
\<close>

fun process_page ::
  "world \<Rightarrow> string \<Rightarrow> string option \<Rightarrow> (string \<times> pyval) list \<Rightarrow>
     point list \<times> string option \<Rightarrow> point list \<times> string option" where
  "process_page w sensor last_key [] acc = acc"
| "process_page w sensor last_key ((key, record) # rest) (points, new_last_key) =
     (if Some key = last_key then process_page w sensor last_key rest (points, new_last_key)
      else
        (let pts =
           (case record of
              PDict items \<Rightarrow>
                (case clean_sensor_data (runtime_at w key) (''/'' @ sensor @ ''/'' @ key) record
                        (case map_of (sensor_configs w) sensor of Some cfg \<Rightarrow> cfg | None \<Rightarrow> PNone) of
                   Some pt \<Rightarrow> points @ [pt]
                 | None \<Rightarrow> points)
            | _ \<Rightarrow> points)
         in process_page w sensor last_key rest (pts, Some key)))"

text \<open>\<^verbatim>\<open>cursors.get(sensor)\<close>.\<close>

definition cursor_of :: "cursors \<Rightarrow> string \<Rightarrow> string option" where
  "cursor_of cs sensor = (case map_of cs sensor of Some c \<Rightarrow> c | None \<Rightarrow> None)"

definition query_for :: "string option \<Rightarrow> query" where
  "query_for last_key =
     (case last_key of
        Some k \<Rightarrow> if k \<noteq> [] then StartAt k else LimitToLast
      | None \<Rightarrow> LimitToLast)"

text \<open>
  One sensor in one cycle: the body of \<^verbatim>\<open>for sensor in SENSORS\<close> inside
  \<^verbatim>\<open>while True\<close>, with its \<^verbatim>\<open>try\<close>. Both requests are bounded to 100 records.
\<close>

definition poll_sensor :: "world \<Rightarrow> cursors \<Rightarrow> string \<Rightarrow> cursors \<times> call list" where
  "poll_sensor w cs sensor =
     (let last_key = cursor_of cs sensor;
          q = query_for last_key;
          got = SourceGet sensor q (firebase_page w sensor q)
      in case firebase_page w sensor q of
           Inl e \<Rightarrow> (cs, [got])
         | Inr snapshot \<Rightarrow>
             (case snapshot of
                PDict kvs \<Rightarrow>
                  if kvs = [] then (cs, [got])
                  else if length kvs = 1 \<and> last_key \<in> Some ` fst ` set kvs
                  then (cs, [got])
                  else
                    (case process_page w sensor last_key (sort_key fst kvs) ([], last_key) of
                       (points, new_last_key) \<Rightarrow>
                         if points \<noteq> []
                         then (case influx_write w sensor points of
                                 Some e \<Rightarrow> (cs, [got, SinkWrite sensor points])
                               | None \<Rightarrow>
                                   (AList.update sensor new_last_key cs,
                                    [got, SinkWrite sensor points,
                                     SaveState (AList.update sensor new_last_key cs)]))
                         else (cs, [got]))
              | _ \<Rightarrow> (cs, [got])))"

fun poll_cycle :: "world \<Rightarrow> string list \<Rightarrow> cursors \<times> call list \<Rightarrow> cursors \<times> call list" where
  "poll_cycle w [] acc = acc"
| "poll_cycle w (sensor # sensors) (cs, calls) =
     (case poll_sensor w cs sensor of
        (cs', made) \<Rightarrow> poll_cycle w sensors (cs', calls @ made))"

text \<open>
  A finite prefix of \<^verbatim>\<open>while True\<close>: one world per cycle, since the source, the sink
  and the clock change between cycles.
\<close>

fun run_cycles :: "world list \<Rightarrow> cursors \<times> call list \<Rightarrow> cursors \<times> call list" where
  "run_cycles [] acc = acc"
| "run_cycles (w # ws) acc = run_cycles ws (poll_cycle w (SENSORS w) acc)"

section \<open>The image poller (image_poller.py)\<close>

text \<open>
  A blob of the storage listing, with what the poller asks of it: its name, whether
  \<^verbatim>\<open>make_public\<close> succeeds, its public URL, and the timestamp
  \<^verbatim>\<open>_get_blob_timestamp\<close> derives for it under the view's configuration.
\<close>

record blob =
  blob_name :: string
  make_public_ok :: bool
  public_url :: string
  blob_timestamp :: datetime

record image_point =
  image_sensor_id :: string
  image_view :: string
  image_url :: string
  image_filename :: string
  image_time :: datetime

text \<open>
  The set \<^verbatim>\<open>_seen_blobs[track_key]\<close> is a Python set: the poller adds blob names to it
  and, after a failed write, discards the elements of \<^verbatim>\<open>new_points\<close> from it, which
  are points. Its elements are therefore of either kind.
\<close>

datatype seen_item = BlobName string | PointObject image_point

record view_cfg =
  view_prefix :: string
  date_folders :: bool
  filename_pattern :: string

text \<open>
  The storage and the sink as the poller meets them in one cycle: the listing under a
  prefix (or an exception), the two dates as \<^verbatim>\<open>isoformat\<close> prints them, the glob match
  \<^verbatim>\<open>fnmatch(basename.lower(), pattern.lower())\<close>, the outcome of the batched write for
  a tracking key, and whether the sink client's points are hashable.
\<close>

record storage =
  list_blobs :: "string \<Rightarrow> pyerr + blob list"
  today_iso :: string
  yesterday_iso :: string
  fnmatch_lower :: "string \<Rightarrow> string \<Rightarrow> bool"
  image_write :: "string \<Rightarrow> image_point list \<Rightarrow> pyerr option"
  point_hashable :: bool

definition rstrip_slash :: "string \<Rightarrow> string" where
  "rstrip_slash s = rev (dropWhile (\<lambda>c. c = CHR ''/'') (rev s))"

definition basename :: "string \<Rightarrow> string" where
  "basename name = last (split_on CHR ''/'' name)"

definition build_prefix_for_date :: "string \<Rightarrow> string \<Rightarrow> bool \<Rightarrow> string" where
  "build_prefix_for_date base_prefix target_date use_date_folders =
     (let prefix = rstrip_slash base_prefix
      in (if use_date_folders then prefix @ ''/'' @ target_date else prefix) @ ''/'')"

definition prefixes_to_scan :: "storage \<Rightarrow> view_cfg \<Rightarrow> string list" where
  "prefixes_to_scan st vc =
     (if date_folders vc
      then [build_prefix_for_date (view_prefix vc) (today_iso st) True,
            build_prefix_for_date (view_prefix vc) (yesterday_iso st) True]
      else [rstrip_slash (view_prefix vc) @ ''/''])"

text \<open>The loop \<^verbatim>\<open>for blob in blobs\<close>: the new points and the seen-set are threaded.\<close>

fun scan_blobs ::
  "storage \<Rightarrow> string \<Rightarrow> string \<Rightarrow> view_cfg \<Rightarrow> blob list \<Rightarrow>
     image_point list \<times> seen_item set \<Rightarrow> image_point list \<times> seen_item set" where
  "scan_blobs st sensor_id view_name vc [] acc = acc"
| "scan_blobs st sensor_id view_name vc (b # bs) (new_points, seen) =
     (if blob_name b \<noteq> [] \<and> last (blob_name b) = CHR ''/''
      then scan_blobs st sensor_id view_name vc bs (new_points, seen)
      else if BlobName (blob_name b) \<in> seen
      then scan_blobs st sensor_id view_name vc bs (new_points, seen)
      else if \<not> fnmatch_lower st (basename (blob_name b)) (filename_pattern vc)
      then scan_blobs st sensor_id view_name vc bs (new_points, seen)
      else if \<not> make_public_ok b
      then scan_blobs st sensor_id view_name vc bs (new_points, seen)
      else scan_blobs st sensor_id view_name vc bs
             (new_points @
                [\<lparr> image_sensor_id = sensor_id, image_view = view_name,
                   image_url = public_url b, image_filename = basename (blob_name b),
                   image_time = blob_timestamp b \<rparr>],
              insert (BlobName (blob_name b)) seen))"

text \<open>The loop \<^verbatim>\<open>for scan_prefix in prefixes_to_scan\<close>; a listing that raises is skipped.\<close>

fun scan_prefixes ::
  "storage \<Rightarrow> string \<Rightarrow> string \<Rightarrow> view_cfg \<Rightarrow> string list \<Rightarrow>
     image_point list \<times> seen_item set \<Rightarrow> image_point list \<times> seen_item set" where
  "scan_prefixes st sensor_id view_name vc [] acc = acc"
| "scan_prefixes st sensor_id view_name vc (scan_prefix # ps) acc =
     (case list_blobs st scan_prefix of
        Inl e \<Rightarrow> scan_prefixes st sensor_id view_name vc ps acc
      | Inr blobs \<Rightarrow>
          scan_prefixes st sensor_id view_name vc ps
            (scan_blobs st sensor_id view_name vc blobs acc))"

text \<open>
  The handler of a failed write, \<^verbatim>\<open>for pt in new_points: seen.discard(pt)\<close>:
  discarding an unhashable object raises TypeError, out of the handler.
\<close>

fun discard_points :: "storage \<Rightarrow> image_point list \<Rightarrow> seen_item set \<Rightarrow> pyerr + seen_item set" where
  "discard_points st [] seen = Inr seen"
| "discard_points st (pt # pts) seen =
     (if point_hashable st then discard_points st pts (seen - {PointObject pt})
      else Inl TypeError)"

type_synonym seen_blobs = "(string \<times> seen_item set) list"

text \<open>
  The dictionary \<^verbatim>\<open>_seen_blobs\<close> is kept as the list of its items, like the cursor
  map. One view of one sensor in \<^verbatim>\<open>_poll_once\<close>: the seen-sets after it, the points it
  handed to the sink (none when it made no write), and the exception that leaves
  \<^verbatim>\<open>_poll_once\<close>, if any.
\<close>

definition poll_view ::
  "storage \<Rightarrow> seen_blobs \<Rightarrow> string \<Rightarrow> string \<Rightarrow> view_cfg \<Rightarrow>
     seen_blobs \<times> image_point list \<times> pyerr option" where
  "poll_view st seen_blobs sensor_id view_name vc =
     (let track_key = sensor_id @ ''/'' @ view_name;
          seen0 = (case map_of seen_blobs track_key of Some s \<Rightarrow> s | None \<Rightarrow> {})
      in case scan_prefixes st sensor_id view_name vc (prefixes_to_scan st vc) ([], seen0) of
           (new_points, seen1) \<Rightarrow>
             if new_points \<noteq> []
             then (case image_write st track_key new_points of
                     None \<Rightarrow> (AList.update track_key seen1 seen_blobs, new_points, None)
                   | Some e \<Rightarrow>
                       (case discard_points st new_points seen1 of
                          Inr seen2 \<Rightarrow> (AList.update track_key seen2 seen_blobs, new_points, None)
                        | Inl e' \<Rightarrow> (AList.update track_key seen1 seen_blobs, new_points, Some e')))
             else (AList.update track_key seen1 seen_blobs, [], None))"

section \<open>Fixtures for the examples\<close>

text \<open>
  A runtime for evaluating examples: a clock reading, and library parameters that none
  of the examples depends on except the platform's range of seconds (that of a 64-bit
  \<^verbatim>\<open>gmtime\<close>).
\<close>

definition sample_runtime :: runtime where
  "sample_runtime =
     \<lparr> time_time = 1762000000, utc_now = Micros 1762000000250000,
       str_of_container = (\<lambda>v. ''[]''), iso_strptime = (\<lambda>v. None),
       platform_time_ok = (\<lambda>s. - 67768040609740800 \<le> s \<and> s \<le> 67767976233532799) \<rparr>"

text \<open>
  Worlds for the examples. In \<open>sample_world\<close> the state file knows \<^verbatim>\<open>flood1\<close> only,
  the sink holds a different key for it and a key for \<^verbatim>\<open>flood2\<close>, and none for
  \<^verbatim>\<open>flood3\<close>; the page of \<^verbatim>\<open>flood1\<close> is the one of the end-to-end scenario.
  In \<open>unreachable_sink_world\<close> every query of the sink raises, in
  \<open>failing_sink_world\<close> every write. In \<open>poison_world\<close> each page holds, after
  the cursor, one record that does not normalize.
\<close>

definition sample_world :: world where
  "sample_world =
     \<lparr> sensor_configs = [(''flood1'', PDict [(''enabled'', PBool True)]),
                         (''flood2'', PDict [(''enabled'', PBool True)]),
                         (''flood3'', PDict [(''enabled'', PBool True)])],
       saved_state = [(''flood1'', Some ''-Ka001'')],
       influx_query = (\<lambda>s. if s = ''flood1'' then Inr [[Some ''-Ka009'']]
                            else if s = ''flood2'' then Inr [[], [Some ''-Kb004'']]
                            else Inr []),
       firebase_latest = (\<lambda>s. if s = ''flood3''
                               then Inr (PDict [(''-Kc007'', PDict [(''dist_cm'', PInt 12)])])
                               else Inr PNone),
       firebase_page = (\<lambda>s q.
          if s = ''flood1'' \<and> q = StartAt ''-Ka001''
          then Inr (PDict [(''-Ka001'', PDict [(''dist_cm'', PInt 180), (''timestamp'', PInt 1700000000)]),
                           (''-Ka002'', PDict [(''bat_volt'', PFloat (Fin 4)), (''timestamp'', PInt 1700000060)]),
                           (''-Ka003'', PDict [(''dist_cm'', PInt 187), (''timestamp'', PInt 1700000120)])])
          else Inr PNone),
       influx_write = (\<lambda>s pts. None),
       runtime_at = (\<lambda>k. sample_runtime) \<rparr>"

definition unreachable_sink_world :: world where
  "unreachable_sink_world = sample_world\<lparr>influx_query := (\<lambda>s. Inl OSError)\<rparr>"

definition failing_sink_world :: world where
  "failing_sink_world = sample_world\<lparr>influx_write := (\<lambda>s pts. Some OSError)\<rparr>"

definition sample_cursors :: cursors where
  "sample_cursors = [(''flood1'', Some ''-Ka001'')]"

definition sample_points :: "point list" where
  "sample_points =
     [\<lparr> measurement = ''sensor_reading'', tag_sensor_id = ''flood1'', field_dist_cm = 0,
         field_bat_volt = Fin 4, field_solar_volt = Fin 0, field_fb_key = ''-Ka002'',
         point_time = Micros 1700000060000000 \<rparr>,
      \<lparr> measurement = ''sensor_reading'', tag_sensor_id = ''flood1'', field_dist_cm = 187,
         field_bat_volt = Fin 0, field_solar_volt = Fin 0, field_fb_key = ''-Ka003'',
         point_time = Micros 1700000120000000 \<rparr>]"

definition poison_world :: world where
  "poison_world =
     \<lparr> sensor_configs = [(''flood1'', PDict [(''enabled'', PBool True)]),
                         (''flood2'', PDict [(''enabled'', PBool True)])],
       saved_state = [(''flood1'', Some ''-Ka001''), (''flood2'', Some ''-Kb001'')],
       influx_query = (\<lambda>s. Inr []),
       firebase_latest = (\<lambda>s. Inr PNone),
       firebase_page = (\<lambda>s q.
          if s = ''flood1'' \<and> q = StartAt ''-Ka001''
          then Inr (PDict [(''-Ka001'', PDict [(''dist_cm'', PInt 180), (''timestamp'', PInt 1700000000)]),
                           (''-Ka002'', PStr ''corrupt'')])
          else if s = ''flood2'' \<and> q = StartAt ''-Kb001''
          then Inr (PDict [(''-Kb001'', PDict [(''dist_cm'', PInt 75), (''timestamp'', PInt 1700000000)]),
                           (''-Kb002'', PDict [(''dist_cm'', PInt 76), (''bat_volt'', PStr ''n/a''),
                                                (''timestamp'', PInt 1700000060)])])
          else Inr PNone),
       influx_write = (\<lambda>s pts. None),
       runtime_at = (\<lambda>k. sample_runtime) \<rparr>"

text \<open>
  A storage for the examples: today's folder of one view lists its directory marker and
  one image; every name matches the pattern and every write of pointer records raises.
\<close>

definition sample_view :: view_cfg where
  "sample_view =
     \<lparr> view_prefix = ''cams/flood1/front/'', date_folders = True, filename_pattern = ''*.jpg'' \<rparr>"

definition sample_blob :: blob where
  "sample_blob =
     \<lparr> blob_name = ''cams/flood1/front/2026-11-04/img_001.jpg'', make_public_ok = True,
       public_url = ''https://storage.example/cams/flood1/front/2026-11-04/img_001.jpg'',
       blob_timestamp = Micros 1762250000000000 \<rparr>"

definition sample_image_point :: image_point where
  "sample_image_point =
     \<lparr> image_sensor_id = ''flood1'', image_view = ''front'',
       image_url = ''https://storage.example/cams/flood1/front/2026-11-04/img_001.jpg'',
       image_filename = ''img_001.jpg'', image_time = Micros 1762250000000000 \<rparr>"

definition failing_storage :: storage where
  "failing_storage =
     \<lparr> list_blobs = (\<lambda>p. if p = ''cams/flood1/front/2026-11-04/''
                           then Inr [\<lparr> blob_name = ''cams/flood1/front/2026-11-04/'',
                                       make_public_ok = True, public_url = [],
                                       blob_timestamp = Micros 0 \<rparr>, sample_blob]
                           else Inr []),
       today_iso = ''2026-11-04'', yesterday_iso = ''2026-11-03'',
       fnmatch_lower = (\<lambda>name pattern. True),
       image_write = (\<lambda>k pts. Some OSError),
       point_hashable = True \<rparr>"

section \<open>Properties of the value model\<close>

subsection \<open>Splitting\<close>

text \<open>
  \<open>split_on\<close> never returns the empty list, and returns at least two parts when the
  separator occurs: the \<open>last\<close> and the second part that \<open>clean_body\<close> reads exist.
\<close>

lemma split_on_not_Nil: "split_on c s \<noteq> []"
  by (induction s) (auto split: list.splits)

lemma split_on_two_parts: "c \<in> set s \<Longrightarrow> \<exists>a b rest. split_on c s = a # b # rest"
proof (induction s)
  case Nil
  then show ?case by simp
next
  case (Cons x xs)
  show ?case
  proof (cases "x = c")
    case True
    obtain w ws where "split_on c xs = w # ws"
      using split_on_not_Nil [of c xs] by (cases "split_on c xs") auto
    with True show ?thesis by simp
  next
    case False
    with Cons.prems have "c \<in> set xs" by auto
    from Cons.IH [OF this] obtain a b rest where "split_on c xs = a # b # rest" by blast
    with False show ?thesis by simp
  qed
qed

lemma sensor_id_of_key_total: "\<exists>sid. sensor_id_of_key key = Inr sid"
proof (cases "CHR ''/'' \<in> set key")
  case True
  from split_on_two_parts [OF this] obtain a b rest
    where "split_on CHR ''/'' key = a # b # rest" by blast
  with True show ?thesis by (simp add: sensor_id_of_key_def)
next
  case False
  then show ?thesis by (simp add: sensor_id_of_key_def)
qed

subsection \<open>Digits\<close>

lemma digit_val_nonneg: "is_digit c \<Longrightarrow> 0 \<le> digit_val c"
  by (auto simp: is_digit_def digit_val_def)

lemma foldl_digits_nonneg:
  "0 \<le> n \<Longrightarrow> \<forall>c\<in>set ds. is_digit c \<Longrightarrow> 0 \<le> foldl (\<lambda>n c. 10 * n + digit_val c) n ds"
proof (induction ds arbitrary: n)
  case Nil
  then show ?case by simp
next
  case (Cons d ds)
  have "0 \<le> 10 * n + digit_val d"
    using Cons.prems digit_val_nonneg [of d] by simp
  then show ?case using Cons by simp
qed

lemma int_of_digits_nonneg: "\<forall>c\<in>set ds. is_digit c \<Longrightarrow> 0 \<le> int_of_digits ds"
  unfolding int_of_digits_def by (rule foldl_digits_nonneg) simp_all

lemma re_search_digits_Some:
  "re_search_digits s = Some m \<Longrightarrow> m \<noteq> [] \<and> (\<forall>c\<in>set m. is_digit c)"
  by (auto simp: re_search_digits_def Let_def split: if_splits dest: set_takeWhileD)

lemma re_search_digits_None: "(\<forall>c\<in>set s. \<not> is_digit c) \<Longrightarrow> re_search_digits s = None"
proof -
  assume "\<forall>c\<in>set s. \<not> is_digit c"
  then have "takeWhile is_digit (dropWhile (\<lambda>c. \<not> is_digit c) s) = []"
    by (induction s) auto
  then show ?thesis by (simp add: re_search_digits_def)
qed


lemma parse_distance_digits_nonneg:
  "(case re_search_digits s of Some m \<Rightarrow> Inr (int_of_digits m) | None \<Rightarrow> Inr 0) = (Inr n :: pyerr + int)
     \<Longrightarrow> 0 \<le> n"
  by (auto split: option.splits dest!: re_search_digits_Some intro: int_of_digits_nonneg)

subsection \<open>Rounding of integers to binary64\<close>

lemma round_half_even_of_int: "round_half_even (of_int j) = j"
  by (simp add: round_half_even_def)

lemma round_half_even_numeral: "round_half_even (numeral w) = numeral w"
  using round_half_even_of_int [of "numeral w"] by simp

lemma round_half_even_ge_floor: "\<lfloor>x\<rfloor> \<le> round_half_even x"
  by (simp add: round_half_even_def Let_def)

lemma bitlen_one: "bitlen 1 = 1"
  by (simp add: bitlen_alt_def)

lemma ilog2_of_int:
  assumes "0 < k"
  shows "ilog2 (of_int k) = bitlen k - 1"
proof -
  have b: "1 \<le> bitlen k" using assms by (simp add: bitlen_alt_def)
  have "(2::int) ^ nat (bitlen k - 1) \<le> k"
    using bitlen_bounds [OF assms] by simp
  then have "(of_int ((2::int) ^ nat (bitlen k - 1)) :: rat) \<le> of_int k"
    by (simp only: of_int_le_iff)
  then have "pow2 (bitlen k - 1) \<le> of_int k"
    using b by (simp add: pow2_def)
  then show ?thesis
    by (simp add: ilog2_def bitlen_one Let_def)
qed

lemma bitlen_le_54:
  assumes "0 < k" and "k \<le> 2 ^ 53"
  shows "bitlen k \<le> 54"
proof (rule ccontr)
  assume "\<not> bitlen k \<le> 54"
  then have "54 \<le> nat (bitlen k - 1)" by simp
  then have "(2::int) ^ 54 \<le> 2 ^ nat (bitlen k - 1)"
    by (rule power_increasing) simp
  also have "\<dots> \<le> k" using bitlen_bounds [OF assms(1)] by simp
  finally show False using assms(2) by simp
qed

lemma b64_abs_small:
  assumes "0 < k" and "k \<le> 2 ^ 53"
  shows "of_int (round_half_even (of_int k / pow2 (max (bitlen k - 1) (- 1022) - 52)))
           * pow2 (max (bitlen k - 1) (- 1022) - 52) = (of_int k :: rat)"
proof -
  have b: "1 \<le> bitlen k" using assms by (simp add: bitlen_alt_def)
  then have m: "max (bitlen k - 1) (- 1022) = bitlen k - 1" by simp
  show ?thesis
  proof (cases "bitlen k - 1 \<le> 52")
    case True
    define j where "j = nat (52 - (bitlen k - 1))"
    have u: "pow2 (bitlen k - 1 - 52) = 1 / 2 ^ j"
      using True by (cases "bitlen k - 1 = 52") (simp_all add: pow2_def j_def)
    have eq: "(of_int k :: rat) / (1 / 2 ^ j) = of_int (k * 2 ^ j)" by simp
    have "round_half_even (of_int k / (1 / 2 ^ j)) = k * 2 ^ j"
      by (simp only: eq round_half_even_of_int)
    then show ?thesis
      unfolding m u by simp
  next
    case False
    with bitlen_le_54 [OF assms] have e: "bitlen k = 54" by simp
    have "(2::int) ^ 53 \<le> k" using bitlen_bounds [OF assms(1)] e by simp
    with assms(2) have k: "k = 2 ^ 53" by simp
    have "(of_int k :: rat) / 2 = of_int (2 ^ 52)" unfolding k by simp
    then show ?thesis
      unfolding m e by (simp add: pow2_def round_half_even_numeral k)
  qed
qed

lemma b64_pos_small:
  assumes "0 < k" and "k \<le> 2 ^ 53"
  shows "b64 (of_int k) = Fin (of_int k)" and "b64 (- of_int k) = Fin (- of_int k)"
proof -
  have s: "of_int k \<le> (2 :: rat) ^ 53"
    using assms(2) by (metis of_int_le_iff of_int_numeral of_int_power)
  have "(2::rat) ^ 53 < 2 ^ 1024" by (rule power_strict_increasing) simp_all
  with s have lt: "\<not> (2 :: rat) ^ 1024 \<le> of_int k" by simp
  have a: "\<bar>of_int k :: rat\<bar> = of_int k" "\<bar>- of_int k :: rat\<bar> = of_int k"
    using assms(1) by simp_all
  have nz: "(of_int k :: rat) \<noteq> 0" "0 < (of_int k :: rat)" using assms(1) by simp_all
  show "b64 (of_int k) = Fin (of_int k)"
    unfolding b64_def a Let_def ilog2_of_int [OF assms(1)] b64_abs_small [OF assms]
    using nz lt by simp
  show "b64 (- of_int k) = Fin (- of_int k)"
    unfolding b64_def a Let_def ilog2_of_int [OF assms(1)] b64_abs_small [OF assms]
    using nz lt by simp
qed

lemma b64_of_int_small:
  assumes "\<bar>n\<bar> \<le> 2 ^ 53"
  shows "b64 (of_int n) = Fin (of_int n)"
proof -
  consider "n = 0" | "0 < n" | "n < 0" by linarith
  then show ?thesis
  proof cases
    case 1
    then show ?thesis by (simp add: b64_def)
  next
    case 2
    with assms show ?thesis by (simp add: b64_pos_small(1))
  next
    case 3
    with assms have "0 < - n" "- n \<le> 2 ^ 53" by simp_all
    from b64_pos_small(2) [OF this] show ?thesis by simp
  qed
qed

lemma b64_of_int_large:
  assumes "2 ^ 53 < n" and "b64 (of_int n) = Fin q"
  shows "2 ^ 53 \<le> q"
proof -
  have "(0::int) < 2 ^ 53" by simp
  with assms(1) have pos: "0 < n" by linarith
  have "53 < nat (bitlen n)"
  proof (rule ccontr)
    assume "\<not> 53 < nat (bitlen n)"
    then have "nat (bitlen n) \<le> 53" by simp
    then have "(2::int) ^ nat (bitlen n) \<le> 2 ^ 53" by (rule power_increasing) simp
    then show False using bitlen_bounds [OF pos] assms(1) by simp
  qed
  then have e: "53 \<le> bitlen n - 1" by simp
  define j where "j = nat (bitlen n - 1 - 52)"
  have j: "1 \<le> j" "nat (bitlen n - 1) = 52 + j" using e by (simp_all add: j_def)
  have u: "pow2 (max (bitlen n - 1) (- 1022) - 52) = 2 ^ j"
    using e by (simp add: pow2_def j_def)
  have "(2::int) ^ (52 + j) \<le> n" using bitlen_bounds [OF pos] j(2) by simp
  then have "(of_int ((2::int) ^ (52 + j)) :: rat) \<le> of_int n" by (simp only: of_int_le_iff)
  then have "(2::rat) ^ 52 * 2 ^ j \<le> of_int n" by (simp add: power_add)
  then have "(2::rat) ^ 52 \<le> of_int n / 2 ^ j" by (simp add: pos_le_divide_eq)
  then have "of_int (2 ^ 52) \<le> (of_int n :: rat) / 2 ^ j" by simp
  then have "(2::int) ^ 52 \<le> \<lfloor>(of_int n :: rat) / 2 ^ j\<rfloor>" by (simp only: le_floor_iff)
  then have r: "(2::int) ^ 52 \<le> round_half_even (of_int n / 2 ^ j)"
    using round_half_even_ge_floor [of "of_int n / 2 ^ j"] by linarith
  then have "(of_int ((2::int) ^ 52) :: rat) \<le> of_int (round_half_even (of_int n / 2 ^ j))"
    by (simp only: of_int_le_iff)
  then have r': "(2::rat) ^ 52 \<le> of_int (round_half_even (of_int n / 2 ^ j))" by simp
  have "(2::rat) ^ 1 \<le> 2 ^ j" using j(1) by (intro power_increasing) simp_all
  then have "(2::rat) ^ 52 * 2 \<le> of_int (round_half_even (of_int n / 2 ^ j)) * 2 ^ j"
    using r' by (intro mult_mono) simp_all
  then have y: "(2::rat) ^ 53 \<le> of_int (round_half_even (of_int n / 2 ^ j)) * 2 ^ j" by simp
  have a: "\<bar>of_int n :: rat\<bar> = of_int n" using pos by simp
  have nz: "(of_int n :: rat) \<noteq> 0" using pos by simp
  have "q = of_int (round_half_even (of_int n / 2 ^ j)) * 2 ^ j"
    using assms(2) pos nz
    by (simp add: b64_def a ilog2_of_int [OF pos] u Let_def split: if_splits)
  then show ?thesis using y by simp
qed

lemma b64_of_int_neg:
  assumes "n < 0" and "b64 (of_int n) = Fin q"
  shows "q \<le> 0"
proof -
  have nz: "(of_int n :: rat) \<noteq> 0" "\<not> 0 < (of_int n :: rat)" using assms(1) by simp_all
  define a where "a = \<bar>of_int n :: rat\<bar>"
  define u where "u = pow2 (max (ilog2 a) (- 1022) - 52)"
  have up: "0 < u" by (simp add: u_def pow2_def)
  have "0 \<le> a / u" using up by (simp add: a_def)
  then have "0 \<le> \<lfloor>a / u\<rfloor>" by simp
  then have "0 \<le> round_half_even (a / u)"
    using round_half_even_ge_floor [of "a / u"] by linarith
  then have y: "0 \<le> of_int (round_half_even (a / u)) * u" using up by simp
  have "q = - (of_int (round_half_even (a / u)) * u)"
    using assms(2) nz by (simp add: b64_def a_def u_def Let_def split: if_splits)
  then show ?thesis using y by simp
qed

lemma float_of_int_gt_1e11:
  assumes "float_of_int n = Inr (Fin q)"
  shows "(100000000000 < q) = (100000000000 < n)"
proof -
  have b: "b64 (of_int n) = Fin q"
    using assms by (auto simp: float_of_int_def split: pyfloat.splits)
  consider "\<bar>n\<bar> \<le> 2 ^ 53" | "2 ^ 53 < n" | "n < - (2 ^ 53)" by linarith
  then show ?thesis
  proof cases
    case 1
    with b have "q = of_int n" by (simp add: b64_of_int_small)
    then show ?thesis by simp
  next
    case 2
    then have "(2::rat) ^ 53 \<le> q" using b64_of_int_large [OF _ b] by simp
    with 2 show ?thesis by simp
  next
    case 3
    then have "q \<le> 0" using b64_of_int_neg [OF _ b] by simp
    with 3 show ?thesis by simp
  qed
qed

section \<open>Properties of the normalizer\<close>

subsection \<open>Distance parsing\<close>








text \<open>
  Claim C10. Under the encodings \<^verbatim>\<open>string\<close> and \<^verbatim>\<open>auto\<close> a value of string type
  parses to a non-negative integer: a leading minus sign is dropped (\<^verbatim>\<open>-15\<close> parses to
  15), a string with no digit parses to 0, and a negative distance comes from a value
  of type int or float only.
\<close>

theorem string_distance_nonneg:
  assumes "enc = PStr ''string'' \<or> enc = PStr ''auto''"
  shows "(\<exists>n. parse_distance rt (PStr s) enc = Inr n \<and> 0 \<le> n)
       \<and> parse_distance rt (PStr ''-15'') enc = Inr 15
       \<and> ((\<forall>c\<in>set s. \<not> is_digit c) \<longrightarrow> parse_distance rt (PStr s) enc = Inr 0)
       \<and> (\<forall>m. parse_distance rt v enc = Inr m \<and> m < 0 \<longrightarrow> (\<exists>n. v = PInt n) \<or> (\<exists>f. v = PFloat f))"
proof -
  have a: "parse_distance rt (PStr t) enc =
             (case re_search_digits t of Some m \<Rightarrow> Inr (int_of_digits m) | None \<Rightarrow> Inr 0)" for t
    using assms by (auto simp: parse_distance_def py_str_def)
  have 1: "\<exists>n. parse_distance rt (PStr s) enc = Inr n \<and> 0 \<le> n"
    unfolding a using parse_distance_digits_nonneg [of s]
    by (cases "re_search_digits s") auto
  have 2: "parse_distance rt (PStr ''-15'') enc = Inr 15"
    unfolding a by (simp add: re_search_digits_def is_digit_def int_of_digits_def digit_val_def)
  have 3: "(\<forall>c\<in>set s. \<not> is_digit c) \<longrightarrow> parse_distance rt (PStr s) enc = Inr 0"
    unfolding a by (simp add: re_search_digits_None)
  have 4: "(\<exists>n. v = PInt n) \<or> (\<exists>f. v = PFloat f)" if "parse_distance rt v enc = Inr m" "m < 0" for m
  proof (cases v)
    case (PStr t)
    with that a [of t] parse_distance_digits_nonneg [of t m] show ?thesis by simp
  next
    case (PBool b)
    with that assms show ?thesis by (auto simp: parse_distance_def split: if_splits)
  next
    case (PList xs)
    with that assms parse_distance_digits_nonneg [of "py_str rt v" m] show ?thesis
      by (auto simp: parse_distance_def split: if_splits)
  next
    case (PDict kvs)
    with that assms parse_distance_digits_nonneg [of "py_str rt v" m] show ?thesis
      by (auto simp: parse_distance_def split: if_splits)
  next
    case PNone
    with that show ?thesis by (simp add: parse_distance_def)
  qed auto
  show ?thesis using 1 2 3 4 by blast
qed

theorem string_distance_nonneg_witness:
  "(\<exists>n. parse_distance sample_runtime (PStr ''R0231'') (PStr ''string'') = Inr n \<and> 0 \<le> n)
   \<and> parse_distance sample_runtime (PStr ''-15'') (PStr ''string'') = Inr 15
   \<and> parse_distance sample_runtime (PStr ''n/a'') (PStr ''auto'') = Inr 0
   \<and> parse_distance sample_runtime (PInt (- 15)) (PStr ''auto'') = Inr (- 15)"
proof -
  have h: "PStr ''string'' = PStr ''string'' \<or> PStr ''string'' = PStr ''auto''" by simp
  have h': "PStr ''auto'' = PStr ''string'' \<or> PStr ''auto'' = PStr ''auto''" by simp
  have nd: "\<forall>c\<in>set ''n/a''. \<not> is_digit c" by (simp add: is_digit_def)
  from string_distance_nonneg [OF h, of sample_runtime "''R0231''" PNone]
  have 1: "\<exists>n. parse_distance sample_runtime (PStr ''R0231'') (PStr ''string'') = Inr n \<and> 0 \<le> n"
    and 2: "parse_distance sample_runtime (PStr ''-15'') (PStr ''string'') = Inr 15" by blast+
  from string_distance_nonneg [OF h', of sample_runtime "''n/a''" PNone] nd
  have 3: "parse_distance sample_runtime (PStr ''n/a'') (PStr ''auto'') = Inr 0" by blast
  have 4: "parse_distance sample_runtime (PInt (- 15)) (PStr ''auto'') = Inr (- 15)"
    by (simp add: parse_distance_def)
  show ?thesis using 1 2 3 4 by blast
qed

subsection \<open>Field resolution\<close>

lemma get_field_chain_find:
  "get_field_chain (PDict kvs) fbs =
     Inr (case find (\<lambda>fb. map_of kvs fb \<noteq> None \<and> map_of kvs fb \<noteq> Some PNone) fbs of
            Some fb \<Rightarrow> (case map_of kvs fb of Some v \<Rightarrow> v | None \<Rightarrow> PNone)
          | None \<Rightarrow> PNone)"
  by (induction fbs) (auto split: option.splits)

text \<open>
  Claim C7, as the code has it. For a mapping record: when a field name is configured,
  the resolved raw value is the record's value under that name, null when the record
  has none, and the fallback chain is not consulted; when no name is configured, it
  is the first non-null value along the ordered fallback chain, null when there is none;
  a null raw value becomes the type default, 0 for distance and 0.0 for battery and solar.
\<close>

theorem field_resolution_order:
  "(name \<noteq> [] \<longrightarrow>
      get_field (PDict kvs) (PStr name) fallbacks =
        Inr (case map_of kvs name of Some v \<Rightarrow> v | None \<Rightarrow> PNone))
   \<and> (\<not> truthy field_name \<longrightarrow>
      get_field (PDict kvs) field_name fallbacks =
        Inr (case find (\<lambda>fb. map_of kvs fb \<noteq> None \<and> map_of kvs fb \<noteq> Some PNone) fallbacks of
               Some fb \<Rightarrow> (case map_of kvs fb of Some v \<Rightarrow> v | None \<Rightarrow> PNone)
             | None \<Rightarrow> PNone))
   \<and> parse_distance rt PNone enc = Inr 0
   \<and> float_or_zero PNone = Inr (Fin 0)"
  by (simp add: get_field_def get_field_chain_find parse_distance_def float_or_zero_def)

theorem field_resolution_order_witness:
  "get_field (PDict [(''level_raw'', PInt 187), (''dist_cm'', PInt 5)]) (PStr ''level_raw'')
       DISTANCE_FALLBACK_FIELDS = Inr (PInt 187)
   \<and> get_field (PDict [(''level'', PNone), (''distance'', PInt 64)]) PNone
       DISTANCE_FALLBACK_FIELDS = Inr (PInt 64)
   \<and> get_field (PDict [(''temperature'', PInt 21)]) PNone BATTERY_FALLBACK_FIELDS = Inr PNone
   \<and> parse_distance sample_runtime PNone (PStr ''auto'') = Inr 0
   \<and> float_or_zero PNone = Inr (Fin 0)"
proof -
  note a = field_resolution_order [where name = "''level_raw''"
      and kvs = "[(''level_raw'', PInt 187), (''dist_cm'', PInt 5)]"
      and fallbacks = DISTANCE_FALLBACK_FIELDS and field_name = PNone
      and rt = sample_runtime and enc = "PStr ''auto''"]
  note b = field_resolution_order [where name = "''level_raw''"
      and kvs = "[(''level'', PNone), (''distance'', PInt 64)]"
      and fallbacks = DISTANCE_FALLBACK_FIELDS and field_name = PNone
      and rt = sample_runtime and enc = "PStr ''auto''"]
  note c = field_resolution_order [where name = "''level_raw''"
      and kvs = "[(''temperature'', PInt 21)]"
      and fallbacks = BATTERY_FALLBACK_FIELDS and field_name = PNone
      and rt = sample_runtime and enc = "PStr ''auto''"]
  have 1: "get_field (PDict [(''level_raw'', PInt 187), (''dist_cm'', PInt 5)]) (PStr ''level_raw'')
       DISTANCE_FALLBACK_FIELDS = Inr (PInt 187)"
    using a by simp
  have 2: "get_field (PDict [(''level'', PNone), (''distance'', PInt 64)]) PNone
       DISTANCE_FALLBACK_FIELDS = Inr (PInt 64)"
    using b by (simp add: DISTANCE_FALLBACK_FIELDS_def)
  have 3: "get_field (PDict [(''temperature'', PInt 21)]) PNone BATTERY_FALLBACK_FIELDS = Inr PNone"
    using c by (simp add: BATTERY_FALLBACK_FIELDS_def)
  show ?thesis using 1 2 3 a by simp
qed

text \<open>
  The claim as stated fails where a name is configured and the record has no value under
  it: the chain would find 187 under \<^verbatim>\<open>dist_cm\<close>, but the resolved value is null and
  the distance of the point is the default 0.
\<close>

theorem field_resolution_order_counterexample:
  "get_field (PDict [(''dist_cm'', PInt 187)]) (PStr ''level_raw'') DISTANCE_FALLBACK_FIELDS
     = Inr PNone
   \<and> get_field_chain (PDict [(''dist_cm'', PInt 187)]) DISTANCE_FALLBACK_FIELDS = Inr (PInt 187)
   \<and> map_option field_dist_cm
       (clean_sensor_data sample_runtime ''/flood1/-Ka002''
          (PDict [(''dist_cm'', PInt 187), (''timestamp'', PInt 1700000000)])
          (PDict [(''fields'', PDict [(''distance'', PStr ''level_raw'')])])) = Some 0"
  by code_simp

subsection \<open>Timestamps\<close>

lemma parse_timestamp_epoch:
  assumes "py_float v = Inr ts" and "fmt \<noteq> PStr ''iso''"
  shows "parse_timestamp rt v fmt = fromtimestamp_or_now rt (scale_epoch fmt ts)"
proof -
  have "v \<noteq> PNone" using assms(1) by auto
  then show ?thesis using assms by (simp add: parse_timestamp_def)
qed

text \<open>
  Claim C8. For a timestamp value that \<^verbatim>\<open>float\<close> converts, the format
  \<^verbatim>\<open>epoch_auto\<close> divides by 1000 exactly when the value is greater than
  \<open>10 ^ 11\<close>, \<^verbatim>\<open>epoch_ms\<close> always divides and \<^verbatim>\<open>epoch_s\<close> never does; the
  comparison made on the converted float agrees with the comparison on the integer
  itself. 150000000000 is read as milliseconds and 1700000000 as seconds.
\<close>

theorem epoch_auto_boundary:
  "(py_float v = Inr ts \<longrightarrow>
      parse_timestamp rt v (PStr ''epoch_auto'') =
        fromtimestamp_or_now rt (if fgt_1e11 ts then fdiv1000 ts else ts)
      \<and> parse_timestamp rt v (PStr ''epoch_ms'') = fromtimestamp_or_now rt (fdiv1000 ts)
      \<and> parse_timestamp rt v (PStr ''epoch_s'') = fromtimestamp_or_now rt ts)
   \<and> parse_timestamp rt (PFloat (Fin q)) (PStr ''epoch_auto'') =
        fromtimestamp_or_now rt (if 100000000000 < q then b64 (q / 1000) else Fin q)
   \<and> (float_of_int n = Inr (Fin r) \<longrightarrow>
        parse_timestamp rt (PInt n) (PStr ''epoch_auto'') =
          fromtimestamp_or_now rt (if 100000000000 < n then b64 (r / 1000) else Fin r))
   \<and> parse_timestamp rt (PInt 150000000000) (PStr ''epoch_auto'') =
        fromtimestamp_or_now rt (Fin 150000000)
   \<and> parse_timestamp rt (PInt 1700000000) (PStr ''epoch_auto'') =
        fromtimestamp_or_now rt (Fin 1700000000)"
proof -
  have 1: "parse_timestamp rt v (PStr ''epoch_auto'') =
        fromtimestamp_or_now rt (if fgt_1e11 ts then fdiv1000 ts else ts)
      \<and> parse_timestamp rt v (PStr ''epoch_ms'') = fromtimestamp_or_now rt (fdiv1000 ts)
      \<and> parse_timestamp rt v (PStr ''epoch_s'') = fromtimestamp_or_now rt ts"
    if "py_float v = Inr ts"
    using that by (simp add: parse_timestamp_epoch scale_epoch_def)
  have 2: "parse_timestamp rt (PFloat (Fin q)) (PStr ''epoch_auto'') =
        fromtimestamp_or_now rt (if 100000000000 < q then b64 (q / 1000) else Fin q)"
    by (simp add: parse_timestamp_epoch scale_epoch_def)
  have 3: "parse_timestamp rt (PInt n) (PStr ''epoch_auto'') =
          fromtimestamp_or_now rt (if 100000000000 < n then b64 (r / 1000) else Fin r)"
    if "float_of_int n = Inr (Fin r)"
    using that float_of_int_gt_1e11 [OF that]
    by (simp add: parse_timestamp_epoch scale_epoch_def)
  have s: "float_of_int 150000000000 = Inr (Fin 150000000000)"
    "float_of_int 1700000000 = Inr (Fin 1700000000)"
    using b64_of_int_small [of 150000000000] b64_of_int_small [of 1700000000]
    by (simp_all add: float_of_int_def)
  have d: "b64 (150000000000 / 1000) = Fin 150000000"
    using b64_of_int_small [of 150000000] by simp
  have 4: "parse_timestamp rt (PInt 150000000000) (PStr ''epoch_auto'') =
        fromtimestamp_or_now rt (Fin 150000000)"
    using s(1) d by (simp add: parse_timestamp_epoch scale_epoch_def)
  have 5: "parse_timestamp rt (PInt 1700000000) (PStr ''epoch_auto'') =
        fromtimestamp_or_now rt (Fin 1700000000)"
    using s(2) by (simp add: parse_timestamp_epoch scale_epoch_def)
  show ?thesis using 1 2 3 4 5 by blast
qed

lemma sample_fromtimestamp:
  "fromtimestamp_or_now sample_runtime (Fin 150000000) = Inr (Micros 150000000000000)"
  "fromtimestamp_or_now sample_runtime (Fin 1700000000) = Inr (Micros 1700000000000000)"
  by code_simp+

theorem epoch_auto_boundary_witness:
  "parse_timestamp sample_runtime (PInt 150000000000) (PStr ''epoch_auto'') =
     Inr (Micros 150000000000000)
   \<and> parse_timestamp sample_runtime (PInt 1700000000) (PStr ''epoch_auto'') =
     Inr (Micros 1700000000000000)
   \<and> parse_timestamp sample_runtime (PInt 1700000000000) (PStr ''epoch_ms'') =
     Inr (Micros 1700000000000000)
   \<and> parse_timestamp sample_runtime (PFloat (Fin 100000000000)) (PStr ''epoch_auto'') =
     fromtimestamp_or_now sample_runtime (Fin 100000000000)"
proof -
  note a = epoch_auto_boundary [where rt = sample_runtime and v = "PInt 1700000000000"
      and ts = "Fin 1700000000000" and q = 100000000000 and n = 1700000000 and r = 1700000000]
  have f: "py_float (PInt 1700000000000) = Inr (Fin 1700000000000)"
    using b64_of_int_small [of 1700000000000] by (simp add: float_of_int_def)
  have d: "fdiv1000 (Fin 1700000000000) = Fin 1700000000"
    using b64_of_int_small [of 1700000000] by simp
  have 1: "parse_timestamp sample_runtime (PInt 150000000000) (PStr ''epoch_auto'') =
     Inr (Micros 150000000000000)"
    using a sample_fromtimestamp(1) by simp
  have 2: "parse_timestamp sample_runtime (PInt 1700000000) (PStr ''epoch_auto'') =
     Inr (Micros 1700000000000000)"
    using a sample_fromtimestamp(2) by simp
  have 3: "parse_timestamp sample_runtime (PInt 1700000000000) (PStr ''epoch_ms'') =
     Inr (Micros 1700000000000000)"
    using a f d sample_fromtimestamp(2) by simp
  have 4: "parse_timestamp sample_runtime (PFloat (Fin 100000000000)) (PStr ''epoch_auto'') =
     fromtimestamp_or_now sample_runtime (Fin 100000000000)"
    using a by simp
  show ?thesis using 1 2 3 4 by blast
qed

subsection \<open>Failure and defaults\<close>

lemma get_field_non_mapping:
  assumes "\<forall>kvs. data \<noteq> PDict kvs" and "fallbacks \<noteq> []"
  shows "get_field data field_name fallbacks = Inl AttributeError"
proof -
  have d: "dict_get data k dflt = Inl AttributeError" for k dflt
    using assms(1) by (cases data) simp_all
  obtain fb fbs where "fallbacks = fb # fbs" using assms(2) by (cases fallbacks) auto
  then show ?thesis by (simp add: get_field_def d)
qed

lemma clean_sensor_data_non_mapping:
  assumes "\<forall>kvs. data \<noteq> PDict kvs"
  shows "clean_sensor_data rt key data sensor_cfg = None"
proof -
  have "get_field data f DISTANCE_FALLBACK_FIELDS = Inl AttributeError" for f
    by (rule get_field_non_mapping [OF assms]) (simp add: DISTANCE_FALLBACK_FIELDS_def)
  then have "\<exists>e. clean_body rt key data sensor_cfg = Inl e"
    by (auto simp: clean_body_def bindE_def split: sum.splits)
  then show ?thesis by (auto simp: clean_sensor_data_def)
qed


text \<open>
  Claim C4, at the failing input: a mapping whose battery value is the text \<^verbatim>\<open>n/a\<close>.
  \<^verbatim>\<open>float('n/a')\<close> raises ValueError in step 4 of \<^verbatim>\<open>clean_sensor_data\<close>, outside
  every helper that substitutes a default, and the record is dropped.
\<close>

theorem malformed_battery_drops_record:
  "clean_sensor_data sample_runtime ''/flood1/-Ka002''
     (PDict [(''dist_cm'', PInt 187), (''bat_volt'', PStr ''n/a''),
             (''timestamp'', PInt 1700000000)]) PNone = None
   \<and> clean_sensor_data sample_runtime ''/flood1/-Ka002''
     (PDict [(''dist_cm'', PStr ''n/a''), (''bat_volt'', PInt 4),
             (''timestamp'', PStr ''n/a'')]) (PDict [(''distance_encoding'', PStr ''numeric'')])
     = Some \<lparr> measurement = ''sensor_reading'', tag_sensor_id = ''flood1'',
              field_dist_cm = 0, field_bat_volt = Fin 4, field_solar_volt = Fin 0,
              field_fb_key = ''-Ka002'', point_time = Micros 1762000000250000 \<rparr>"
  by code_simp

subsection \<open>Dependence on the clock\<close>









section \<open>Properties of the cursor store and the polling loop\<close>

subsection \<open>Cursor recovery\<close>

lemma init_cursors_result:
  "map_of (fst (init_cursors w ss (cs, calls))) s =
     (if s \<in> set ss then Some (fst (init_cursor w s)) else map_of cs s)"
  by (induction ss arbitrary: cs calls) (auto split: prod.splits simp: update_conv')

lemma init_cursors_calls:
  "set (snd (init_cursors w ss (cs, calls))) =
     set calls \<union> (\<Union>s\<in>set ss. set (snd (init_cursor w s)))"
  by (induction ss arbitrary: cs calls) (auto split: prod.splits)

text \<open>
  What \<^verbatim>\<open>fetch_last_key_from_influx\<close> returns, by the sink's answer: a key only when
  the query returns and its first record holds one; nothing when the query raises,
  returns no record, or its first record holds null.
\<close>

lemma fetch_last_key_answer:
  "fetch_last_key_from_influx w s = Some k \<longleftrightarrow>
     (\<exists>tables rest. influx_query w s = Inr tables \<and> concat tables = Some k # rest)"
  by (auto simp: fetch_last_key_from_influx_def simp del: concat_eq_Nil_conv Nil_eq_concat_conv
      split: sum.splits list.splits)

lemma fetch_last_key_nothing:
  "fetch_last_key_from_influx w s = None \<longleftrightarrow>
     (\<exists>e. influx_query w s = Inl e)
     \<or> (\<exists>tables. influx_query w s = Inr tables
           \<and> (concat tables = [] \<or> (\<exists>rest. concat tables = None # rest)))"
  by (auto simp: fetch_last_key_from_influx_def simp del: concat_eq_Nil_conv Nil_eq_concat_conv
      split: sum.splits list.splits)

lemma init_cursor_sink_query:
  "SinkQuery s \<in> set (snd (init_cursor w s')) \<Longrightarrow> s' = s \<and> map_of (saved_state w) s = None"
  by (auto simp: init_cursor_def Let_def split: option.splits if_splits)

lemma init_cursor_source_latest:
  assumes "SourceLatest s \<in> set (snd (init_cursor w s'))"
  shows "s' = s \<and> map_of (saved_state w) s = None
     \<and> ((\<exists>e. influx_query w s = Inl e)
         \<or> (\<exists>tables. influx_query w s = Inr tables
               \<and> (concat tables = []
                   \<or> (\<exists>rest. concat tables = None # rest \<or> concat tables = Some [] # rest))))"
proof -
  from assms have s: "s' = s" and f: "map_of (saved_state w) s = None"
    and n: "fetch_last_key_from_influx w s = None \<or> fetch_last_key_from_influx w s = Some []"
    by (auto simp: init_cursor_def Let_def split: option.splits if_splits)
  from n fetch_last_key_nothing [of w s] fetch_last_key_answer [of w s "[]"]
  have "(\<exists>e. influx_query w s = Inl e)
         \<or> (\<exists>tables. influx_query w s = Inr tables
               \<and> (concat tables = []
                   \<or> (\<exists>rest. concat tables = None # rest \<or> concat tables = Some [] # rest)))"
    by blast
  with s f show ?thesis by blast
qed

text \<open>
  Claim C3, as the code has it. At startup, an entry of the state file for a sensor is
  adopted as it is, without any query, whatever the sink holds. With no entry the sink
  is queried, and when the query returns and its first record holds a non-empty key,
  that key is adopted and the source is not asked. The source is asked for its newest
  record in every other case: when the query raises, when it returns no record, and
  when its first record holds null or the empty string; the key of that record becomes
  the cursor, null when the source has no record or its read raises. Over the whole
  initialisation, the sink is queried for a sensor only when the file has no entry for
  it, and the source only when, besides, the query yielded no non-empty key in one of
  these ways.
\<close>

theorem cursor_recovery_precedence:
  "(map_of (saved_state w) sensor = Some c \<longrightarrow> init_cursor w sensor = (c, []))
   \<and> (map_of (saved_state w) sensor = None \<and> influx_query w sensor = Inr tables
        \<and> concat tables = Some k # rest \<and> k \<noteq> [] \<longrightarrow>
        init_cursor w sensor = (Some k, [SinkQuery sensor]))
   \<and> (map_of (saved_state w) sensor = None
        \<and> (influx_query w sensor = Inl e
            \<or> (influx_query w sensor = Inr tables
                \<and> (concat tables = [] \<or> concat tables = None # rest
                    \<or> concat tables = Some [] # rest))) \<longrightarrow>
        init_cursor w sensor = (fresh_start w sensor, [SinkQuery sensor, SourceLatest sensor]))
   \<and> (firebase_latest w sensor = Inr (PDict (older @ [(newest, r)])) \<longrightarrow>
        fresh_start w sensor = Some newest)
   \<and> (firebase_latest w sensor = Inr (PDict []) \<or> firebase_latest w sensor = Inr PNone
        \<or> firebase_latest w sensor = Inl e' \<longrightarrow>
        fresh_start w sensor = None)
   \<and> (sensor \<in> set (SENSORS w) \<longrightarrow>
        map_of (fst (startup w)) sensor = Some (fst (init_cursor w sensor)))
   \<and> (SinkQuery sensor \<in> set (snd (startup w)) \<longrightarrow> map_of (saved_state w) sensor = None)
   \<and> (SourceLatest sensor \<in> set (snd (startup w)) \<longrightarrow>
        map_of (saved_state w) sensor = None
        \<and> ((\<exists>e. influx_query w sensor = Inl e)
            \<or> (\<exists>tables. influx_query w sensor = Inr tables
                  \<and> (concat tables = []
                      \<or> (\<exists>rest. concat tables = None # rest
                                \<or> concat tables = Some [] # rest)))))"
proof -
  have 1: "init_cursor w sensor = (c, [])" if "map_of (saved_state w) sensor = Some c"
    using that by (simp add: init_cursor_def)
  have 2: "init_cursor w sensor = (Some k, [SinkQuery sensor])"
    if "map_of (saved_state w) sensor = None" "influx_query w sensor = Inr tables"
      "concat tables = Some k # rest" "k \<noteq> []"
  proof -
    have "fetch_last_key_from_influx w sensor = Some k"
      using that(2,3) by (simp add: fetch_last_key_from_influx_def)
    with that(1,4) show ?thesis by (simp add: init_cursor_def)
  qed
  have 3: "init_cursor w sensor = (fresh_start w sensor, [SinkQuery sensor, SourceLatest sensor])"
    if "map_of (saved_state w) sensor = None"
      "influx_query w sensor = Inl e
         \<or> (influx_query w sensor = Inr tables
             \<and> (concat tables = [] \<or> concat tables = None # rest
                 \<or> concat tables = Some [] # rest))"
  proof -
    have "fetch_last_key_from_influx w sensor = None
            \<or> fetch_last_key_from_influx w sensor = Some []"
      using that(2)
      by (auto simp: fetch_last_key_from_influx_def
          simp del: concat_eq_Nil_conv Nil_eq_concat_conv)
    with that(1) show ?thesis by (auto simp: init_cursor_def)
  qed
  have 4: "fresh_start w sensor = Some newest"
    if "firebase_latest w sensor = Inr (PDict (older @ [(newest, r)]))"
    using that by (simp add: fresh_start_def)
  have 5: "fresh_start w sensor = None"
    if "firebase_latest w sensor = Inr (PDict []) \<or> firebase_latest w sensor = Inr PNone
        \<or> firebase_latest w sensor = Inl e'"
    using that by (auto simp: fresh_start_def)
  have st: "startup w =
      (fst (init_cursors w (SENSORS w) ([], [])),
       snd (init_cursors w (SENSORS w) ([], []))
         @ [SaveState (fst (init_cursors w (SENSORS w) ([], [])))])"
    by (simp add: startup_def split: prod.splits)
  have 6: "map_of (fst (startup w)) sensor = Some (fst (init_cursor w sensor))"
    if "sensor \<in> set (SENSORS w)"
    using that by (simp add: st init_cursors_result)
  have 7: "map_of (saved_state w) sensor = None" if "SinkQuery sensor \<in> set (snd (startup w))"
    using that init_cursor_sink_query [of sensor w]
    by (auto simp: st init_cursors_calls)
  have 8: "map_of (saved_state w) sensor = None
        \<and> ((\<exists>e. influx_query w sensor = Inl e)
            \<or> (\<exists>tables. influx_query w sensor = Inr tables
                  \<and> (concat tables = []
                      \<or> (\<exists>rest. concat tables = None # rest
                                \<or> concat tables = Some [] # rest))))"
    if "SourceLatest sensor \<in> set (snd (startup w))"
  proof -
    from that obtain s' where "SourceLatest sensor \<in> set (snd (init_cursor w s'))"
      by (auto simp: st init_cursors_calls)
    from init_cursor_source_latest [OF this] show ?thesis by blast
  qed
  show ?thesis using 1 2 3 4 5 6 7 8 by blast
qed

lemma sample_world_fields:
  "map_of (saved_state sample_world) ''flood1'' = Some (Some ''-Ka001'')"
  "map_of (saved_state sample_world) ''flood2'' = None"
  "map_of (saved_state sample_world) ''flood3'' = None"
  "influx_query sample_world ''flood1'' = Inr [[Some ''-Ka009'']]"
  "influx_query sample_world ''flood2'' = Inr [[], [Some ''-Kb004'']]"
  "influx_query sample_world ''flood3'' = Inr []"
  "firebase_latest sample_world ''flood3'' =
     Inr (PDict ([] @ [(''-Kc007'', PDict [(''dist_cm'', PInt 12)])]))"
  "SENSORS sample_world = [''flood1'', ''flood2'', ''flood3'']"
  by (simp_all add: sample_world_def SENSORS_def)

theorem cursor_recovery_precedence_witness:
  "init_cursor sample_world ''flood1'' = (Some ''-Ka001'', [])
   \<and> influx_query sample_world ''flood1'' = Inr [[Some ''-Ka009'']]
   \<and> init_cursor sample_world ''flood2'' = (Some ''-Kb004'', [SinkQuery ''flood2''])
   \<and> init_cursor sample_world ''flood3'' =
       (Some ''-Kc007'', [SinkQuery ''flood3'', SourceLatest ''flood3''])
   \<and> map_of (fst (startup sample_world)) ''flood1'' = Some (Some ''-Ka001'')
   \<and> snd (startup sample_world) \<noteq> []"
proof -
  note a = cursor_recovery_precedence [where w = sample_world and sensor = "''flood1''"
      and c = "Some ''-Ka001''"]
  note b = cursor_recovery_precedence [where w = sample_world and sensor = "''flood2''"
      and tables = "[[], [Some ''-Kb004'']]" and k = "''-Kb004''" and rest = "[]"]
  note c = cursor_recovery_precedence [where w = sample_world and sensor = "''flood3''"
      and tables = "[]" and older = "[]" and newest = "''-Kc007''"
      and r = "PDict [(''dist_cm'', PInt 12)]"]
  have 1: "init_cursor sample_world ''flood1'' = (Some ''-Ka001'', [])"
    using a sample_world_fields(1) by blast
  have 2: "init_cursor sample_world ''flood2'' = (Some ''-Kb004'', [SinkQuery ''flood2''])"
    using b sample_world_fields(2,5) by simp
  have "fresh_start sample_world ''flood3'' = Some ''-Kc007''"
    using c sample_world_fields(7) by blast
  moreover have "init_cursor sample_world ''flood3'' =
      (fresh_start sample_world ''flood3'', [SinkQuery ''flood3'', SourceLatest ''flood3''])"
    using c sample_world_fields(3,6) by simp
  ultimately have 3: "init_cursor sample_world ''flood3'' =
       (Some ''-Kc007'', [SinkQuery ''flood3'', SourceLatest ''flood3''])" by simp
  have 4: "map_of (fst (startup sample_world)) ''flood1'' = Some (Some ''-Ka001'')"
    using a 1 sample_world_fields(8) by simp
  have 5: "snd (startup sample_world) \<noteq> []"
    by (simp add: startup_def split: prod.splits)
  show ?thesis using 1 2 3 4 5 sample_world_fields(4) by blast
qed

text \<open>
  The claim as stated fails where the sink is not found empty but its query raises. In
  \<open>sample_world\<close> the sink answers the query for \<^verbatim>\<open>flood2\<close> with the key
  \<^verbatim>\<open>-Kb004\<close>; in \<open>unreachable_sink_world\<close>, which differs in that every query
  raises, the source is asked all the same, and the cursor of \<^verbatim>\<open>flood2\<close> is left
  null and that of \<^verbatim>\<open>flood3\<close> seeded from the newest source record.
\<close>

theorem cursor_recovery_precedence_counterexample:
  "fetch_last_key_from_influx sample_world ''flood2'' = Some ''-Kb004''
   \<and> influx_query unreachable_sink_world ''flood2'' = Inl OSError
   \<and> init_cursor unreachable_sink_world ''flood2'' =
       (None, [SinkQuery ''flood2'', SourceLatest ''flood2''])
   \<and> init_cursor unreachable_sink_world ''flood3'' =
       (Some ''-Kc007'', [SinkQuery ''flood3'', SourceLatest ''flood3''])"
  by (simp add: init_cursor_def fetch_last_key_from_influx_def fresh_start_def
      unreachable_sink_world_def sample_world_def)

subsection \<open>The polling step\<close>

lemma poll_sensor_cases:
  "poll_sensor w cs s =
     (cs, [SourceGet s (query_for (cursor_of cs s)) (firebase_page w s (query_for (cursor_of cs s)))])
   \<or> (\<exists>pts. pts \<noteq> [] \<and> influx_write w s pts \<noteq> None
        \<and> poll_sensor w cs s =
          (cs, [SourceGet s (query_for (cursor_of cs s)) (firebase_page w s (query_for (cursor_of cs s))),
                SinkWrite s pts]))
   \<or> (\<exists>pts k. pts \<noteq> [] \<and> influx_write w s pts = None
        \<and> poll_sensor w cs s =
          (AList.update s k cs,
           [SourceGet s (query_for (cursor_of cs s)) (firebase_page w s (query_for (cursor_of cs s))),
            SinkWrite s pts, SaveState (AList.update s k cs)]))"
  unfolding poll_sensor_def Let_def
  by (auto split: sum.splits pyval.splits prod.splits option.splits)


lemma poll_sensor_other: "s' \<noteq> s \<Longrightarrow> map_of (fst (poll_sensor w cs s')) s = map_of cs s"
  using poll_sensor_cases [of w cs s'] by (auto simp: update_conv')

lemma poll_sensor_write_fails:
  assumes "\<forall>pts. influx_write w s pts \<noteq> None"
  shows "fst (poll_sensor w cs s) = cs"
proof -
  from poll_sensor_cases [of w cs s] assms
  have "(\<exists>tr. poll_sensor w cs s = (cs, tr))" by blast
  then show ?thesis by auto
qed

lemma poll_cycle_write_fails:
  "\<forall>pts. influx_write w s pts \<noteq> None \<Longrightarrow> map_of (fst (poll_cycle w ss (cs, tr))) s = map_of cs s"
proof (induction ss arbitrary: cs tr)
  case Nil
  then show ?case by simp
next
  case (Cons x ss)
  obtain cs' made where p: "poll_sensor w cs x = (cs', made)" by (cases "poll_sensor w cs x")
  have "map_of cs' s = map_of cs s"
  proof (cases "x = s")
    case True
    with poll_sensor_write_fails [OF Cons.prems, of cs] p show ?thesis by simp
  next
    case False
    with poll_sensor_other [of x s w cs] p show ?thesis by simp
  qed
  with Cons.IH [OF Cons.prems, of cs' "tr @ made"] p show ?case by simp
qed

text \<open>
  Claim C1. In a polling step the cursor map changes only after the batched write
  returned, and is then persisted at once, as the last call of the step; a state is
  saved only after a write that returned. When the write of the step raises, the cursor
  map is unchanged and nothing is saved, so the next step sends the same request and,
  from a source that answers as before, fetches the same page. The step of another
  sensor does not touch the cursor, and a cycle in which the writes for a sensor raise
  leaves its cursor where it was.
\<close>

theorem at_least_once_delivery:
  "(fst (poll_sensor w cs s) \<noteq> cs \<longrightarrow>
      (\<exists>pts k q page.
         snd (poll_sensor w cs s) =
           [SourceGet s q page, SinkWrite s pts, SaveState (fst (poll_sensor w cs s))]
         \<and> influx_write w s pts = None \<and> fst (poll_sensor w cs s) = AList.update s k cs))
   \<and> (SinkWrite s pts \<in> set (snd (poll_sensor w cs s)) \<and> influx_write w s pts \<noteq> None \<longrightarrow>
        fst (poll_sensor w cs s) = cs \<and> (\<forall>c. SaveState c \<notin> set (snd (poll_sensor w cs s))))
   \<and> (SaveState c \<in> set (snd (poll_sensor w cs s)) \<longrightarrow>
        c = fst (poll_sensor w cs s)
        \<and> (\<exists>pts. SinkWrite s pts \<in> set (snd (poll_sensor w cs s)) \<and> influx_write w s pts = None))
   \<and> (fst (poll_sensor w cs s) = cs \<and> firebase_page w' s = firebase_page w s \<longrightarrow>
        hd (snd (poll_sensor w' (fst (poll_sensor w cs s)) s)) = hd (snd (poll_sensor w cs s)))
   \<and> (s' \<noteq> s \<longrightarrow> map_of (fst (poll_sensor w cs s')) s = map_of cs s)
   \<and> ((\<forall>pts. influx_write w s pts \<noteq> None) \<longrightarrow> map_of (fst (poll_cycle w ss (cs, tr))) s = map_of cs s)"
proof -
  let ?r = "poll_sensor w cs s"
  have 1: "\<exists>pts k q page.
         snd ?r = [SourceGet s q page, SinkWrite s pts, SaveState (fst ?r)]
         \<and> influx_write w s pts = None \<and> fst ?r = AList.update s k cs"
    if "fst ?r \<noteq> cs"
    using that poll_sensor_cases [of w cs s] by auto
  have 2: "fst ?r = cs \<and> (\<forall>c. SaveState c \<notin> set (snd ?r))"
    if "SinkWrite s pts \<in> set (snd ?r)" "influx_write w s pts \<noteq> None"
    using that poll_sensor_cases [of w cs s] by auto
  have 3: "c = fst ?r \<and> (\<exists>pts. SinkWrite s pts \<in> set (snd ?r) \<and> influx_write w s pts = None)"
    if "SaveState c \<in> set (snd ?r)"
    using that poll_sensor_cases [of w cs s] by auto
  have 4: "hd (snd (poll_sensor w' (fst ?r) s)) = hd (snd ?r)"
    if "fst ?r = cs" "firebase_page w' s = firebase_page w s"
    using that poll_sensor_cases [of w cs s] poll_sensor_cases [of w' cs s] by auto
  show ?thesis
    using 1 2 3 4 poll_sensor_other [of s' s w cs] poll_cycle_write_fails [of w s ss cs tr]
    by blast
qed


lemma failing_sink_step:
  "snd (poll_sensor failing_sink_world sample_cursors ''flood1'') =
     [SourceGet ''flood1'' (StartAt ''-Ka001'')
        (firebase_page sample_world ''flood1'' (StartAt ''-Ka001'')),
      SinkWrite ''flood1'' sample_points]"
  by code_simp

lemma sample_world_step:
  "fst (poll_sensor sample_world sample_cursors ''flood1'') = [(''flood1'', Some ''-Ka003'')]"
  by code_simp

theorem at_least_once_delivery_witness:
  "fst (poll_sensor failing_sink_world sample_cursors ''flood1'') = sample_cursors
   \<and> (\<forall>c. SaveState c \<notin> set (snd (poll_sensor failing_sink_world sample_cursors ''flood1'')))
   \<and> hd (snd (poll_sensor failing_sink_world
                (fst (poll_sensor failing_sink_world sample_cursors ''flood1'')) ''flood1''))
       = hd (snd (poll_sensor failing_sink_world sample_cursors ''flood1''))
   \<and> (\<exists>pts k q page.
         snd (poll_sensor sample_world sample_cursors ''flood1'') =
           [SourceGet ''flood1'' q page, SinkWrite ''flood1'' pts,
            SaveState (fst (poll_sensor sample_world sample_cursors ''flood1''))]
         \<and> influx_write sample_world ''flood1'' pts = None
         \<and> fst (poll_sensor sample_world sample_cursors ''flood1'') = AList.update ''flood1'' k sample_cursors)"
proof -
  note a = at_least_once_delivery [where w = failing_sink_world and cs = sample_cursors
      and s = "''flood1''" and pts = sample_points and w' = failing_sink_world]
  note b = at_least_once_delivery [where w = sample_world and cs = sample_cursors
      and s = "''flood1''"]
  have w: "SinkWrite ''flood1'' sample_points
             \<in> set (snd (poll_sensor failing_sink_world sample_cursors ''flood1''))"
    by (simp add: failing_sink_step)
  have f: "influx_write failing_sink_world ''flood1'' sample_points \<noteq> None"
    by (simp add: failing_sink_world_def)
  have 1: "fst (poll_sensor failing_sink_world sample_cursors ''flood1'') = sample_cursors
           \<and> (\<forall>c. SaveState c \<notin> set (snd (poll_sensor failing_sink_world sample_cursors ''flood1'')))"
    using a w f by blast
  have 2: "hd (snd (poll_sensor failing_sink_world
                (fst (poll_sensor failing_sink_world sample_cursors ''flood1'')) ''flood1''))
       = hd (snd (poll_sensor failing_sink_world sample_cursors ''flood1''))"
    using a 1 by blast
  have "fst (poll_sensor sample_world sample_cursors ''flood1'') \<noteq> sample_cursors"
    unfolding sample_world_step by (simp add: sample_cursors_def)
  with b have 3: "\<exists>pts k q page.
         snd (poll_sensor sample_world sample_cursors ''flood1'') =
           [SourceGet ''flood1'' q page, SinkWrite ''flood1'' pts,
            SaveState (fst (poll_sensor sample_world sample_cursors ''flood1''))]
         \<and> influx_write sample_world ''flood1'' pts = None
         \<and> fst (poll_sensor sample_world sample_cursors ''flood1'') = AList.update ''flood1'' k sample_cursors"
    by blast
  show ?thesis using 1 2 3 by blast
qed

subsection \<open>Pages of records that do not normalize\<close>

lemma process_page_last_key:
  "snd (process_page w s lk page (pts, nlk)) =
     (case filter (\<lambda>kr. Some (fst kr) \<noteq> lk) page of
        [] \<Rightarrow> nlk
      | x # xs \<Rightarrow> Some (fst (last (x # xs))))"
proof (induction page arbitrary: pts nlk)
  case Nil
  then show ?case by simp
next
  case (Cons kr page)
  obtain k r where kr: "kr = (k, r)" by (cases kr)
  show ?case
    unfolding kr
    by (cases "filter (\<lambda>kr. Some (fst kr) \<noteq> lk) page")
       (simp_all add: Cons.IH Let_def)
qed

lemma process_page_points_nonempty:
  "fst (process_page w s lk page (pts, nlk)) \<noteq> [] \<Longrightarrow>
     pts \<noteq> [] \<or> filter (\<lambda>kr. Some (fst kr) \<noteq> lk) page \<noteq> []"
proof (induction page arbitrary: pts nlk)
  case Nil
  then show ?case by simp
next
  case (Cons kr page)
  obtain k r where kr: "kr = (k, r)" by (cases kr)
  show ?case
  proof (cases "Some k = lk")
    case True
    with Cons.prems kr have "fst (process_page w s lk page (pts, nlk)) \<noteq> []" by simp
    from Cons.IH [OF this] show ?thesis by auto
  next
    case False
    then show ?thesis by (simp add: kr)
  qed
qed

lemma poll_sensor_advances_to_last_key:
  assumes "fst (poll_sensor w cs s) \<noteq> cs"
  shows "\<exists>kvs. firebase_page w s (query_for (cursor_of cs s)) = Inr (PDict kvs)
           \<and> filter (\<lambda>kr. Some (fst kr) \<noteq> cursor_of cs s) (sort_key fst kvs) \<noteq> []
           \<and> fst (poll_sensor w cs s) =
               AList.update s (Some (fst (last (filter (\<lambda>kr. Some (fst kr) \<noteq> cursor_of cs s)
                                                      (sort_key fst kvs))))) cs"
proof -
  let ?lk = "cursor_of cs s"
  let ?q = "query_for ?lk"
  from assms obtain kvs where page: "firebase_page w s ?q = Inr (PDict kvs)"
    unfolding poll_sensor_def Let_def
    by (auto split: sum.splits pyval.splits)
  obtain points nlk where pp: "process_page w s ?lk (sort_key fst kvs) ([], ?lk) = (points, nlk)"
    by (cases "process_page w s ?lk (sort_key fst kvs) ([], ?lk)")
  from assms page pp have ne: "points \<noteq> []" and r: "fst (poll_sensor w cs s) = AList.update s nlk cs"
    unfolding poll_sensor_def Let_def
    by (auto split: if_splits option.splits)
  from process_page_points_nonempty [of w s ?lk "sort_key fst kvs" "[]" ?lk] pp ne
  have f: "filter (\<lambda>kr. Some (fst kr) \<noteq> ?lk) (sort_key fst kvs) \<noteq> []" by simp
  from process_page_last_key [of w s ?lk "sort_key fst kvs" "[]" ?lk] pp f
  have "nlk = Some (fst (last (filter (\<lambda>kr. Some (fst kr) \<noteq> ?lk) (sort_key fst kvs))))"
    by (cases "filter (\<lambda>kr. Some (fst kr) \<noteq> ?lk) (sort_key fst kvs)") simp_all
  with page f r show ?thesis by blast
qed

lemma poll_sensor_no_points:
  assumes "firebase_page w s (query_for (cursor_of cs s)) = Inr (PDict kvs)"
    and "fst (process_page w s (cursor_of cs s) (sort_key fst kvs) ([], cursor_of cs s)) = []"
  shows "poll_sensor w cs s = (cs, [SourceGet s (query_for (cursor_of cs s)) (Inr (PDict kvs))])"
proof -
  obtain points nlk
    where pp: "process_page w s (cursor_of cs s) (sort_key fst kvs) ([], cursor_of cs s) = (points, nlk)"
    by (cases "process_page w s (cursor_of cs s) (sort_key fst kvs) ([], cursor_of cs s)")
  with assms(2) have "points = []" by simp
  with pp assms(1) show ?thesis
    unfolding poll_sensor_def Let_def by simp
qed

text \<open>
  Claim C2, at the failing input: a page that holds, after the cursor, only a record that
  does not normalize. No point is produced, nothing is written, and the cursor stays
  where it was, cycle after cycle.
\<close>

theorem poison_page_stalls_cursor:
  "snd (poll_sensor poison_world (saved_state poison_world) ''flood1'') =
     [SourceGet ''flood1'' (StartAt ''-Ka001'')
        (Inr (PDict [(''-Ka001'', PDict [(''dist_cm'', PInt 180), (''timestamp'', PInt 1700000000)]),
                     (''-Ka002'', PStr ''corrupt'')]))]
   \<and> fst (poll_sensor poison_world (saved_state poison_world) ''flood1'')
       = [(''flood1'', Some ''-Ka001''), (''flood2'', Some ''-Kb001'')]
   \<and> snd (poll_sensor poison_world (saved_state poison_world) ''flood2'') =
     [SourceGet ''flood2'' (StartAt ''-Kb001'')
        (Inr (PDict [(''-Kb001'', PDict [(''dist_cm'', PInt 75), (''timestamp'', PInt 1700000000)]),
                     (''-Kb002'', PDict [(''dist_cm'', PInt 76), (''bat_volt'', PStr ''n/a''),
                                          (''timestamp'', PInt 1700000060)])]))]
   \<and> fst (run_cycles [poison_world, poison_world, poison_world] (saved_state poison_world, []))
       = [(''flood1'', Some ''-Ka001''), (''flood2'', Some ''-Kb001'')]
   \<and> filter (\<lambda>c. case c of SinkWrite s pts \<Rightarrow> True | SaveState cs \<Rightarrow> True | _ \<Rightarrow> False)
        (snd (run_cycles [poison_world, poison_world, poison_world] (saved_state poison_world, [])))
       = []"
  by code_simp

section \<open>Properties of the image poller\<close>

subsection \<open>The seen-set\<close>

lemma scan_blobs_seen_mono:
  "x \<in> seen \<Longrightarrow> x \<in> snd (scan_blobs st sid vn vc bs (pts, seen))"
  by (induction bs arbitrary: pts seen) auto

lemma scan_blobs_all_seen:
  "\<forall>b\<in>set bs. BlobName (blob_name b) \<in> seen \<Longrightarrow>
     scan_blobs st sid vn vc bs (pts, seen) = (pts, seen)"
  by (induction bs arbitrary: pts seen) auto

lemma scan_prefixes_seen_mono:
  "x \<in> seen \<Longrightarrow> x \<in> snd (scan_prefixes st sid vn vc ps (pts, seen))"
proof (induction ps arbitrary: pts seen)
  case Nil
  then show ?case by simp
next
  case (Cons p ps)
  show ?case
  proof (cases "list_blobs st p")
    case (Inl e)
    with Cons show ?thesis by simp
  next
    case (Inr blobs)
    obtain pts' seen' where s: "scan_blobs st sid vn vc blobs (pts, seen) = (pts', seen')"
      by (cases "scan_blobs st sid vn vc blobs (pts, seen)")
    with scan_blobs_seen_mono [OF Cons.prems, of st sid vn vc blobs pts]
    have "x \<in> seen'" by simp
    from Cons.IH [OF this] Inr s show ?thesis by simp
  qed
qed

lemma discard_points_keeps_names:
  "discard_points st pts seen = Inr seen' \<Longrightarrow> BlobName n \<in> seen' \<longleftrightarrow> BlobName n \<in> seen"
  by (induction pts arbitrary: seen) (auto split: if_splits)


lemma poll_view_keeps_names:
  assumes "poll_view st sb sid vn vc = (sb', pts, exn)"
    and "map_of sb (sid @ ''/'' @ vn) = Some seen" and "BlobName n \<in> seen"
  shows "\<exists>seen'. map_of sb' (sid @ ''/'' @ vn) = Some seen' \<and> BlobName n \<in> seen'"
proof -
  let ?k = "sid @ ''/'' @ vn"
  obtain np seen1 where s: "scan_prefixes st sid vn vc (prefixes_to_scan st vc) ([], seen) = (np, seen1)"
    by (cases "scan_prefixes st sid vn vc (prefixes_to_scan st vc) ([], seen)")
  have m: "BlobName n \<in> seen1"
    using scan_prefixes_seen_mono [OF assms(3), of st sid vn vc "prefixes_to_scan st vc" "[]"] s
    by simp
  have p: "poll_view st sb sid vn vc =
      (if np \<noteq> []
       then (case image_write st ?k np of
               None \<Rightarrow> (AList.update ?k seen1 sb, np, None)
             | Some e \<Rightarrow>
                 (case discard_points st np seen1 of
                    Inr seen2 \<Rightarrow> (AList.update ?k seen2 sb, np, None)
                  | Inl e' \<Rightarrow> (AList.update ?k seen1 sb, np, Some e')))
       else (AList.update ?k seen1 sb, [], None))"
    unfolding poll_view_def Let_def assms(2) using s by simp
  have "\<exists>X. sb' = AList.update ?k X sb \<and> BlobName n \<in> X"
  proof (cases "np = []")
    case True
    with p assms(1) m show ?thesis by (intro exI [of _ seen1]) simp
  next
    case False
    show ?thesis
    proof (cases "image_write st ?k np")
      case None
      with p assms(1) m False show ?thesis by (intro exI [of _ seen1]) simp
    next
      case (Some e)
      show ?thesis
      proof (cases "discard_points st np seen1")
        case (Inl e')
        with p assms(1) m False Some show ?thesis by (intro exI [of _ seen1]) simp
      next
        case (Inr seen2)
        with discard_points_keeps_names [OF this, of n] m have "BlobName n \<in> seen2" by simp
        with p assms(1) False Some Inr show ?thesis by (intro exI [of _ seen2]) simp
      qed
    qed
  qed
  then show ?thesis by (auto simp: update_conv')
qed

text \<open>
  Claim C5, at the failing input: one new artifact and a sink whose write raises. The
  artifact is published and its name added to the seen-set; the handler of the failed
  write discards the points, which are not in the set, so the name stays, and the next
  cycle over the same listing finds no candidate and writes nothing.
\<close>

theorem failed_write_keeps_artifact_seen:
  "poll_view failing_storage [] ''flood1'' ''front'' sample_view
     = ([(''flood1/front'', {BlobName (blob_name sample_blob)})], [sample_image_point], None)
   \<and> poll_view failing_storage [(''flood1/front'', {BlobName (blob_name sample_blob)})]
        ''flood1'' ''front'' sample_view
     = ([(''flood1/front'', {BlobName (blob_name sample_blob)})], [], None)
   \<and> poll_view (failing_storage\<lparr>point_hashable := False\<rparr>) [] ''flood1'' ''front'' sample_view
     = ([(''flood1/front'', {BlobName (blob_name sample_blob)})], [sample_image_point],
        Some TypeError)"
  by code_simp

end
